theory Spec2Isabelle
  imports Complex_Main
begin

text \<open>
  A model of the SDL mini engine with its scene editor: the entity-component
  store, the collision test, the simulation step \<^verbatim>\<open>Editor2::update\<close>, the demo
  scene, the play/pause and keyboard handling of the main loop, and the viewport
  mapping (\<^verbatim>\<open>sdl_game_engine_2.cpp\<close>). The entity-component store and the
  collision test are the same, under longer names, in the engine without editor
  (\<^verbatim>\<open>sdl_game_engine.cpp\<close>). Definitions come first, properties after.
\<close>

section \<open>Numeric conventions\<close>

text \<open>
  The engine computes positions in C++ \<^verbatim>\<open>float\<close> and sizes of the window in
  \<^verbatim>\<open>int\<close>. A float is modelled by a \<^typ>\<open>real\<close> of magnitude at most \<open>FLT_MAX\<close>:
  rounding is not part of the model, the range is. A float operation whose exact
  result lies outside the range yields an infinity, and an infinity is what a NaN
  then comes from (\<^verbatim>\<open>inf/inf\<close>, \<^verbatim>\<open>inf-inf\<close>, \<^verbatim>\<open>0*inf\<close>), so the first
  operation that leaves the range ends the run with \<open>FloatOverflow\<close>, and a
  division by zero ends it with \<open>FloatDivByZero\<close>. The range is checked where
  the result is used in arithmetic or stored (the chase, the mapping of the
  mouse). It is not checked where the result is only compared, in the collision
  test and in the integration of the velocity with the clamp that follows: there
  an infinity compares like any other large value.
  Window-scale \<^verbatim>\<open>int\<close> arithmetic is modelled in \<^typ>\<open>int\<close>; the three places where
  C++ differs from HOL are written out: division truncates towards zero, the
  remainder takes the sign of the dividend and is undefined for a zero divisor, and
  the conversion \<^verbatim>\<open>(int)f\<close> truncates towards zero. Every way a run can go wrong
  (null pointer, out-of-range index, integer division by zero, a float division
  by zero, a float result out of range, overflow of the \<^verbatim>\<open>int\<close> score) is a value
  of \<open>error\<close>.
\<close>

datatype error =
    NullDeref | OutOfRange | DivByZero | FloatDivByZero | FloatOverflow | SignedOverflow

definition INT_MAX :: int where
  "INT_MAX = 2147483647"

text \<open>\<^verbatim>\<open>a / 2\<close> on \<^verbatim>\<open>int\<close>.\<close>

definition c_half :: "int \<Rightarrow> int" where
  "c_half a = (if 0 \<le> a then a div 2 else - ((- a) div 2))"

text \<open>\<^verbatim>\<open>a % n\<close> on \<^verbatim>\<open>int\<close>.\<close>

definition c_rem :: "int \<Rightarrow> int \<Rightarrow> error + int" where
  "c_rem a n =
     (if n = 0 then Inl DivByZero
      else if 0 \<le> a then Inr (a mod \<bar>n\<bar>)
      else Inr (- ((- a) mod \<bar>n\<bar>)))"

text \<open>\<^verbatim>\<open>(int)f\<close> for a float \<open>f\<close>.\<close>

definition to_int :: "real \<Rightarrow> int" where
  "to_int f = (if 0 \<le> f then \<lfloor>f\<rfloor> else \<lceil>f\<rceil>)"

text \<open>
  \<^verbatim>\<open>FLT_MAX\<close>, the largest finite \<^verbatim>\<open>float\<close> (\<open>2^128 - 2^104\<close>), and whether the
  exact result of a float operation is in range.
\<close>

definition FLT_MAX :: real where
  "FLT_MAX = 340282346638528859811704183484516925440"

definition finite_float :: "real \<Rightarrow> bool" where
  "finite_float x = (\<bar>x\<bar> \<le> FLT_MAX)"

text \<open>The result of a float operation whose exact value is \<open>x\<close>.\<close>

definition fl :: "real \<Rightarrow> error + real" where
  "fl x = (if finite_float x then Inr x else Inl FloatOverflow)"

text \<open>
  \<^verbatim>\<open>a / b\<close> on floats: a zero divisor yields an infinity or a NaN, and so does a
  quotient out of range.
\<close>

definition fdiv :: "real \<Rightarrow> real \<Rightarrow> error + real" where
  "fdiv a b = (if b = 0 then Inl FloatDivByZero else fl (a / b))"

section \<open>The tiny ECS\<close>

text \<open>
  \<^verbatim>\<open>struct Transform : Component { float x, y, w, h, angle; }\<close> and its siblings.
  The fields carry a prefix (\<open>t_x\<close> for \<^verbatim>\<open>Transform::x\<close>), since a record field
  is a constant of the theory. A texture handle is \<open>None\<close> for \<^verbatim>\<open>nullptr\<close>.
\<close>

type_synonym EntityId = nat
type_synonym Texture = "nat option"

definition INVALID_ENTITY :: EntityId where
  "INVALID_ENTITY = 0"

record Transform =
  t_owner :: EntityId
  t_x :: real
  t_y :: real
  t_w :: real
  t_h :: real
  t_angle :: real

record Sprite =
  s_owner :: EntityId
  s_tex :: Texture
  s_scale :: real

record Velocity =
  v_owner :: EntityId
  v_vx :: real
  v_vy :: real

datatype Component = CTransform Transform | CSprite Sprite | CVelocity Velocity

datatype Kind = KTransform | KSprite | KVelocity

fun kind :: "Component \<Rightarrow> Kind" where
  "kind (CTransform _) = KTransform"
| "kind (CSprite _) = KSprite"
| "kind (CVelocity _) = KVelocity"

text \<open>The default-constructed components of \<^verbatim>\<open>make_shared<T>()\<close>.\<close>

definition Transform0 :: Transform where
  "Transform0 = \<lparr>t_owner = INVALID_ENTITY, t_x = 0, t_y = 0, t_w = 0, t_h = 0, t_angle = 0\<rparr>"

definition Sprite0 :: Sprite where
  "Sprite0 = \<lparr>s_owner = INVALID_ENTITY, s_tex = None, s_scale = 1\<rparr>"

definition Velocity0 :: Velocity where
  "Velocity0 = \<lparr>v_owner = INVALID_ENTITY, v_vx = 0, v_vy = 0\<rparr>"

text \<open>
  \<^verbatim>\<open>struct Entity { EntityId id; vector<shared_ptr<Component>> comps; ... }\<close>.
  The vector is a list in insertion order.
\<close>

record Entity =
  eid :: EntityId
  comps :: "Component list"

fun set_owner :: "EntityId \<Rightarrow> Component \<Rightarrow> Component" where
  "set_owner i (CTransform t) = CTransform (t\<lparr>t_owner := i\<rparr>)"
| "set_owner i (CSprite s) = CSprite (s\<lparr>s_owner := i\<rparr>)"
| "set_owner i (CVelocity v) = CVelocity (v\<lparr>v_owner := i\<rparr>)"

text \<open>
  \<^verbatim>\<open>add<T>\<close> (\<^verbatim>\<open>addComponent<T>\<close> in the first engine): the new component gets
  the entity's id as owner and is pushed to the back of the vector.
\<close>

definition addComponent :: "Component \<Rightarrow> Entity \<Rightarrow> Entity" where
  "addComponent c e = e\<lparr>comps := comps e @ [set_owner (eid e) c]\<rparr>"

text \<open>
  \<^verbatim>\<open>get<T>\<close> (\<^verbatim>\<open>getComponent<T>\<close>): the first component of the vector that the
  dynamic cast to \<open>T\<close> accepts, or \<^verbatim>\<open>nullptr\<close>.
\<close>

definition getComponent :: "Kind \<Rightarrow> Entity \<Rightarrow> Component option" where
  "getComponent k e = find (\<lambda>c. kind c = k) (comps e)"

definition getTransform :: "Entity \<Rightarrow> Transform option" where
  "getTransform e = (case getComponent KTransform e of Some (CTransform t) \<Rightarrow> Some t | _ \<Rightarrow> None)"

definition getSprite :: "Entity \<Rightarrow> Sprite option" where
  "getSprite e = (case getComponent KSprite e of Some (CSprite s) \<Rightarrow> Some s | _ \<Rightarrow> None)"

definition getVelocity :: "Entity \<Rightarrow> Velocity option" where
  "getVelocity e = (case getComponent KVelocity e of Some (CVelocity v) \<Rightarrow> Some v | _ \<Rightarrow> None)"

text \<open>
  A write through the pointer that \<^verbatim>\<open>get<T>\<close> returned changes the first component
  of that kind in place.
\<close>

fun put_first :: "Kind \<Rightarrow> Component \<Rightarrow> Component list \<Rightarrow> Component list" where
  "put_first k c' [] = []"
| "put_first k c' (c # cs) = (if kind c = k then c' # cs else c # put_first k c' cs)"

definition setTransform :: "Entity \<Rightarrow> Transform \<Rightarrow> Entity" where
  "setTransform e t = e\<lparr>comps := put_first KTransform (CTransform t) (comps e)\<rparr>"

definition setVelocity :: "Entity \<Rightarrow> Velocity \<Rightarrow> Entity" where
  "setVelocity e v = e\<lparr>comps := put_first KVelocity (CVelocity v) (comps e)\<rparr>"

section \<open>Collision test\<close>

text \<open>
  \<^verbatim>\<open>return !(a.x+a.w < b.x || a.x > b.x+b.w || a.y+a.h < b.y || a.y > b.y+b.h);\<close>
\<close>

definition aabbIntersect :: "Transform \<Rightarrow> Transform \<Rightarrow> bool" where
  "aabbIntersect a b =
     (\<not> (t_x a + t_w a < t_x b \<or> t_x a > t_x b + t_w b \<or>
         t_y a + t_h a < t_y b \<or> t_y a > t_y b + t_h b))"

section \<open>World\<close>

text \<open>
  \<^verbatim>\<open>struct World { EntityId next=1; unordered_map<EntityId, shared_ptr<Entity>> ents; ... }\<close>.
  The table is modelled by the list of its entities in iteration order, which is
  what \<^verbatim>\<open>all()\<close> returns. C++ leaves the place of a new key in that order
  unspecified, so \<open>create\<close> takes it as a parameter \<open>k\<close> (0 puts the new entity
  first, as libstdc++ does for a key in an empty bucket; the length of the list puts
  it last). \<open>create\<close> returns the index of the new entity, which stands for the
  shared pointer that the C++ returns. The counter is an \<^verbatim>\<open>unsigned int\<close>.
\<close>

record World =
  nextId :: EntityId
  ents :: "Entity list"

definition World0 :: World where
  "World0 = \<lparr>nextId = 1, ents = []\<rparr>"

definition insert_at :: "nat \<Rightarrow> 'a \<Rightarrow> 'a list \<Rightarrow> 'a list" where
  "insert_at k x xs = take k xs @ x # drop k xs"

definition create :: "nat \<Rightarrow> World \<Rightarrow> nat \<times> World" where
  "create k wd =
     (let e = \<lparr>eid = nextId wd, comps = []\<rparr>;
          others = filter (\<lambda>x. eid x \<noteq> nextId wd) (ents wd)
      in (min k (length others),
          \<lparr>nextId = (nextId wd + 1) mod 4294967296, ents = insert_at k e others\<rparr>))"

definition all_ents :: "World \<Rightarrow> Entity list" where
  "all_ents wd = ents wd"

text \<open>A change of the entity behind the pointer with index \<open>i\<close>.\<close>

definition modify :: "nat \<Rightarrow> (Entity \<Rightarrow> Entity) \<Rightarrow> World \<Rightarrow> World" where
  "modify i f wd = wd\<lparr>ents := (ents wd)[i := f (ents wd ! i)]\<rparr>"

section \<open>Editor session\<close>

text \<open>
  \<^verbatim>\<open>struct EngineConfig { int width=1280, height=720; ... }\<close> and
  \<^verbatim>\<open>struct Editor2 { EngineCore* core; TextureManager texman; World world;
  shared_ptr<Entity> selected; bool playing; int score; }\<close>, the editor that
  \<^verbatim>\<open>main\<close> runs (the \<^verbatim>\<open>struct Editor\<close> before it is not used).
  Of the core only the configuration is read. The texture manager is the function
  from a path to the handle that \<^verbatim>\<open>load\<close> returns. The selection is the id of the
  selected entity, \<open>None\<close> for \<^verbatim>\<open>nullptr\<close>.
\<close>

record EngineConfig =
  width :: int
  height :: int

record Editor2 =
  cfg :: EngineConfig
  texman :: "string \<Rightarrow> Texture"
  world :: World
  selected :: "EntityId option"
  playing :: bool
  score :: int

definition mkTransform :: "real \<Rightarrow> real \<Rightarrow> real \<Rightarrow> real \<Rightarrow> Transform" where
  "mkTransform px py pw ph = Transform0\<lparr>t_x := px, t_y := py, t_w := pw, t_h := ph\<rparr>"

text \<open>
  \<^verbatim>\<open>void spawnDemoScene()\<close>. The four values of \<^verbatim>\<open>rand()\<close> are \<open>r1\<close> to \<open>r4\<close>
  in the order of the calls; \<open>k1\<close>, \<open>k2\<close>, \<open>k3\<close> are the places the table gives
  the three new entities. The fields of a new Transform are written here when the
  component is added; the C++ adds the default Transform and assigns the fields
  through the pointer before anything else reads them.
\<close>

definition spawnDemoScene ::
  "nat \<Rightarrow> nat \<Rightarrow> nat \<Rightarrow> int \<Rightarrow> int \<Rightarrow> int \<Rightarrow> int \<Rightarrow> Editor2 \<Rightarrow> error + Editor2" where
  "spawnDemoScene k1 k2 k3 r1 r2 r3 r4 ed =
     (let W = width (cfg ed); H = height (cfg ed);
          (p, w1) = create k1 World0;
          w2 = modify p (addComponent (CTransform
                 (mkTransform (of_int (c_half W - 32)) (of_int (c_half H - 32)) 64 64))) w1;
          w3 = modify p (addComponent (CSprite (Sprite0\<lparr>s_tex := texman ed ''player.png''\<rparr>))) w2;
          w4 = modify p (addComponent (CVelocity Velocity0)) w3;
          (t, w5) = create k2 w4
      in case c_rem r1 (W - 32) of Inl err \<Rightarrow> Inl err | Inr tx \<Rightarrow>
         (case c_rem r2 (H - 32) of Inl err \<Rightarrow> Inl err | Inr ty \<Rightarrow>
         (let w6 = modify t (addComponent (CTransform
                     (mkTransform (of_int tx) (of_int ty) 32 32))) w5;
              w7 = modify t (addComponent (CSprite (Sprite0\<lparr>s_tex := texman ed ''target.png''\<rparr>))) w6;
              (e, w8) = create k3 w7
          in case c_rem r3 (W - 48) of Inl err \<Rightarrow> Inl err | Inr ex \<Rightarrow>
             (case c_rem r4 (H - 48) of Inl err \<Rightarrow> Inl err | Inr ey \<Rightarrow>
             (let w9 = modify e (addComponent (CTransform
                         (mkTransform (of_int ex) (of_int ey) 48 48))) w8;
                  w10 = modify e (addComponent (CSprite (Sprite0\<lparr>s_tex := texman ed ''enemy.png''\<rparr>))) w9
              in Inr (ed\<lparr>world := w10, selected := None, score := 0\<rparr>))))))"

section \<open>Simulation step\<close>

text \<open>
  The body of the first loop of \<^verbatim>\<open>Editor2::update\<close>, for one entity:
  \<^verbatim>\<open>if(auto tr=ent->get<Transform>()){ if(auto v=ent->get<Velocity>()){
  tr->x += v->vx*dt; tr->y += v->vy*dt; if(tr->x<0)tr->x=0; if(tr->y<0)tr->y=0;
  if(tr->x+tr->w>core->cfg.width) tr->x = core->cfg.width - tr->w;
  if(tr->y+tr->h>core->cfg.height) tr->y = core->cfg.height - tr->h; } }\<close>
\<close>

definition integrate :: "EngineConfig \<Rightarrow> real \<Rightarrow> Entity \<Rightarrow> Entity" where
  "integrate c dt ent =
     (case getTransform ent of None \<Rightarrow> ent | Some tr \<Rightarrow>
     (case getVelocity ent of None \<Rightarrow> ent | Some v \<Rightarrow>
       (let x1 = t_x tr + v_vx v * dt;
            y1 = t_y tr + v_vy v * dt;
            x2 = (if x1 < 0 then 0 else x1);
            y2 = (if y1 < 0 then 0 else y1);
            x3 = (if x2 + t_w tr > of_int (width c) then of_int (width c) - t_w tr else x2);
            y3 = (if y2 + t_h tr > of_int (height c) then of_int (height c) - t_h tr else y2)
        in setTransform ent (tr\<lparr>t_x := x3, t_y := y3\<rparr>))))"

definition physics :: "real \<Rightarrow> Editor2 \<Rightarrow> Editor2" where
  "physics dt ed =
     ed\<lparr>world := (world ed)\<lparr>ents := map (integrate (cfg ed) dt) (all_ents (world ed))\<rparr>\<rparr>"

text \<open>
  The second loop: \<^verbatim>\<open>shared_ptr<Entity> player=nullptr, enemy=nullptr, target=nullptr;
  for(auto &ent: world.all()){ if(auto sp=ent->get<Sprite>()){ auto tr=ent->get<Transform>();
  if(tr->w>48) player=ent; else if(tr->w>40) enemy=ent; else target=ent; } }\<close>
  A role is the index of its entity in \<^verbatim>\<open>all()\<close>; a later entity overwrites an
  earlier one of the same role. An entity with a Sprite and no Transform makes
  \<^verbatim>\<open>tr->w\<close> dereference a null pointer.
\<close>

record Roles =
  player :: "nat option"
  enemy :: "nat option"
  target :: "nat option"

definition Roles0 :: Roles where
  "Roles0 = \<lparr>player = None, enemy = None, target = None\<rparr>"

fun find_roles :: "Entity list \<Rightarrow> nat \<Rightarrow> Roles \<Rightarrow> error + Roles" where
  "find_roles [] i r = Inr r"
| "find_roles (ent # rest) i r =
     (case getSprite ent of None \<Rightarrow> find_roles rest (Suc i) r | Some sp \<Rightarrow>
     (case getTransform ent of None \<Rightarrow> Inl NullDeref | Some tr \<Rightarrow>
        find_roles rest (Suc i)
          (if t_w tr > 48 then r\<lparr>player := Some i\<rparr>
           else if t_w tr > 40 then r\<lparr>enemy := Some i\<rparr>
           else r\<lparr>target := Some i\<rparr>)))"

text \<open>Reading and writing the components of the entity behind a pointer.\<close>

definition transform_at :: "Editor2 \<Rightarrow> nat \<Rightarrow> Transform option" where
  "transform_at ed i =
     (if i < length (ents (world ed)) then getTransform (ents (world ed) ! i) else None)"

definition set_transform_at :: "nat \<Rightarrow> Transform \<Rightarrow> Editor2 \<Rightarrow> Editor2" where
  "set_transform_at i t ed = ed\<lparr>world := modify i (\<lambda>ent. setTransform ent t) (world ed)\<rparr>"

text \<open>
  The block \<^verbatim>\<open>if(player && enemy){ ... }\<close> has two parts. The first is the chase:
  \<^verbatim>\<open>float dx=(pt->x+pt->w/2)-(et->x+et->w/2); float dy=(pt->y+pt->h/2)-(et->y+et->h/2);
  float dist = sqrtf(dx*dx+dy*dy);
  if(dist>1e-3f){ et->x += (dx/dist)*100.0f*dt; et->y += (dy/dist)*100.0f*dt; }\<close>
  Every float operation is named, in the order of evaluation, and its result
  checked against the range: the half sizes, the two centres and their difference
  on each axis, the squares and their sum (whose root is then in range), and, past
  the guard, on each axis the quotient, its products by 100 and by \<open>dt\<close> and the
  sum that is stored.
\<close>

definition chase :: "real \<Rightarrow> Roles \<Rightarrow> Editor2 \<Rightarrow> error + Editor2" where
  "chase dt r ed =
     (case (player r, enemy r) of
        (Some p, Some e) \<Rightarrow>
          (case (transform_at ed p, transform_at ed e) of
             (Some pt, Some et) \<Rightarrow>
               (let px = t_x pt + t_w pt / 2; ex = t_x et + t_w et / 2; dx = px - ex;
                    py = t_y pt + t_h pt / 2; ey = t_y et + t_h et / 2; dy = py - ey;
                    dist = sqrt (dx * dx + dy * dy)
                in if \<not> list_all finite_float
                          [t_w pt / 2, px, t_w et / 2, ex, dx, t_h pt / 2, py, t_h et / 2, ey, dy,
                           dx * dx, dy * dy, dx * dx + dy * dy]
                   then Inl FloatOverflow
                   else if dist > 1 / 1000 then
                     (case fdiv dx dist of Inl err \<Rightarrow> Inl err | Inr nx \<Rightarrow>
                        if \<not> list_all finite_float
                              [nx * 100, nx * 100 * dt, t_x et + nx * 100 * dt]
                        then Inl FloatOverflow
                        else
                     (case fdiv dy dist of Inl err \<Rightarrow> Inl err | Inr ny \<Rightarrow>
                        if \<not> list_all finite_float
                              [ny * 100, ny * 100 * dt, t_y et + ny * 100 * dt]
                        then Inl FloatOverflow
                        else Inr (set_transform_at e
                               (et\<lparr>t_x := t_x et + nx * 100 * dt,
                                   t_y := t_y et + ny * 100 * dt\<rparr>) ed)))
                   else Inr ed)
           | _ \<Rightarrow> Inl NullDeref)
      | _ \<Rightarrow> Inr ed)"

text \<open>
  The second part is the reset:
  \<^verbatim>\<open>if(aabbIntersect(*pt,*et)){ pt->x = core->cfg.width/2 - 32;
  pt->y = core->cfg.height/2 - 32; score=0; }\<close>
\<close>

definition reset_on_catch :: "Roles \<Rightarrow> Editor2 \<Rightarrow> error + Editor2" where
  "reset_on_catch r ed =
     (case (player r, enemy r) of
        (Some p, Some e) \<Rightarrow>
          (case (transform_at ed p, transform_at ed e) of
             (Some pt, Some et) \<Rightarrow>
               if aabbIntersect pt et then
                 Inr ((set_transform_at p
                        (pt\<lparr>t_x := of_int (c_half (width (cfg ed)) - 32),
                            t_y := of_int (c_half (height (cfg ed)) - 32)\<rparr>) ed)\<lparr>score := 0\<rparr>)
               else Inr ed
           | _ \<Rightarrow> Inl NullDeref)
      | _ \<Rightarrow> Inr ed)"

text \<open>
  The pickup check:
  \<^verbatim>\<open>if(player && target){ if(aabbIntersect(*player->get<Transform>(), *target->get<Transform>())){
  score++; target->get<Transform>()->x = rand()%(core->cfg.width-(int)target->get<Transform>()->w);
  target->get<Transform>()->y = rand()%(core->cfg.height-(int)target->get<Transform>()->h); } }\<close>
  \<open>r1\<close> and \<open>r2\<close> are the values of the two calls of \<^verbatim>\<open>rand()\<close>.
\<close>

definition pickup :: "int \<Rightarrow> int \<Rightarrow> Roles \<Rightarrow> Editor2 \<Rightarrow> error + Editor2" where
  "pickup r1 r2 r ed =
     (case (player r, target r) of
        (Some p, Some t) \<Rightarrow>
          (case (transform_at ed p, transform_at ed t) of
             (Some pt, Some tt) \<Rightarrow>
               if aabbIntersect pt tt then
                 (if score ed = INT_MAX then Inl SignedOverflow
                  else
                    (case c_rem r1 (width (cfg ed) - to_int (t_w tt)) of
                       Inl err \<Rightarrow> Inl err | Inr nx \<Rightarrow>
                    (case c_rem r2 (height (cfg ed) - to_int (t_h tt)) of
                       Inl err \<Rightarrow> Inl err | Inr ny \<Rightarrow>
                       Inr ((set_transform_at t
                              (tt\<lparr>t_x := of_int nx, t_y := of_int ny\<rparr>) ed)
                            \<lparr>score := score ed + 1\<rparr>))))
               else Inr ed
           | _ \<Rightarrow> Inl NullDeref)
      | _ \<Rightarrow> Inr ed)"

text \<open>\<^verbatim>\<open>void update(float dt){ if(playing){ ... } }\<close>\<close>

definition update :: "real \<Rightarrow> int \<Rightarrow> int \<Rightarrow> Editor2 \<Rightarrow> error + Editor2" where
  "update dt r1 r2 ed =
     (if playing ed then
        (let ed1 = physics dt ed in
         case find_roles (all_ents (world ed1)) 0 Roles0 of Inl err \<Rightarrow> Inl err | Inr r \<Rightarrow>
         (case chase dt r ed1 of Inl err \<Rightarrow> Inl err | Inr ed2 \<Rightarrow>
         (case reset_on_catch r ed2 of Inl err \<Rightarrow> Inl err | Inr ed3 \<Rightarrow>
            pickup r1 r2 r ed3)))
      else Inr ed)"

section \<open>Controls of the viewport panel\<close>

text \<open>
  \<^verbatim>\<open>if(ImGui::Button(playing?"Pause":"Play")) playing = !playing;\<close>
  The other button, \<^verbatim>\<open>if(ImGui::Button("Spawn Demo")) spawnDemoScene();\<close>, is
  \<open>spawnDemoScene\<close> itself.
\<close>

definition press_play_pause :: "Editor2 \<Rightarrow> Editor2" where
  "press_play_pause ed = ed\<lparr>playing := \<not> playing ed\<rparr>"

section \<open>Keyboard events of the main loop\<close>

text \<open>
  \<^verbatim>\<open>editor.world.all()[0]->get<Velocity>()->vy = v\<close>: the first entity of the
  iteration order; an empty vector or a first entity without Velocity is an error.
\<close>

datatype SDL_Keycode = SDLK_w | SDLK_a | SDLK_s | SDLK_d | SDLK_other nat

definition set_first_vy :: "real \<Rightarrow> Editor2 \<Rightarrow> error + Editor2" where
  "set_first_vy s ed =
     (case all_ents (world ed) of
        [] \<Rightarrow> Inl OutOfRange
      | ent # rest \<Rightarrow>
          (case getVelocity ent of
             None \<Rightarrow> Inl NullDeref
           | Some v \<Rightarrow> Inr (ed\<lparr>world := (world ed)\<lparr>ents := setVelocity ent (v\<lparr>v_vy := s\<rparr>) # rest\<rparr>\<rparr>)))"

definition set_first_vx :: "real \<Rightarrow> Editor2 \<Rightarrow> error + Editor2" where
  "set_first_vx s ed =
     (case all_ents (world ed) of
        [] \<Rightarrow> Inl OutOfRange
      | ent # rest \<Rightarrow>
          (case getVelocity ent of
             None \<Rightarrow> Inl NullDeref
           | Some v \<Rightarrow> Inr (ed\<lparr>world := (world ed)\<lparr>ents := setVelocity ent (v\<lparr>v_vx := s\<rparr>) # rest\<rparr>\<rparr>)))"

text \<open>
  \<^verbatim>\<open>if(event.type==SDL_KEYDOWN){ if(editor.playing){ if(sym==SDLK_w) ...vy = -200;
  if(sym==SDLK_s) ...vy = 200; if(sym==SDLK_a) ...vx = -200; if(sym==SDLK_d) ...vx = 200; } }\<close>
  The four tests are on one value, so at most one of them fires.
\<close>

definition key_down :: "SDL_Keycode \<Rightarrow> Editor2 \<Rightarrow> error + Editor2" where
  "key_down key ed =
     (if playing ed then
        (case key of
           SDLK_w \<Rightarrow> set_first_vy (- 200) ed
         | SDLK_s \<Rightarrow> set_first_vy 200 ed
         | SDLK_a \<Rightarrow> set_first_vx (- 200) ed
         | SDLK_d \<Rightarrow> set_first_vx 200 ed
         | SDLK_other _ \<Rightarrow> Inr ed)
      else Inr ed)"

text \<open>
  \<^verbatim>\<open>if(event.type==SDL_KEYUP){ if(editor.playing){ if(sym==SDLK_w || sym==SDLK_s) ...vy = 0;
  if(sym==SDLK_a || sym==SDLK_d) ...vx = 0; } }\<close>
\<close>

definition key_up :: "SDL_Keycode \<Rightarrow> Editor2 \<Rightarrow> error + Editor2" where
  "key_up key ed =
     (if playing ed then
        (case key of
           SDLK_w \<Rightarrow> set_first_vy 0 ed
         | SDLK_s \<Rightarrow> set_first_vy 0 ed
         | SDLK_a \<Rightarrow> set_first_vx 0 ed
         | SDLK_d \<Rightarrow> set_first_vx 0 ed
         | SDLK_other _ \<Rightarrow> Inr ed)
      else Inr ed)"

section \<open>Runs of the main loop\<close>

text \<open>
  What the main loop feeds the session, in the order it happens: a key event
  polled from the queue, the call \<^verbatim>\<open>editor.update(dt)\<close> of a frame with the two
  values that \<^verbatim>\<open>rand()\<close> would return in it, and a press of the play/pause
  button. A run stops at the first error.
\<close>

datatype input =
    Update real int int
  | KeyDown SDL_Keycode
  | KeyUp SDL_Keycode
  | PlayPause

fun apply_input :: "input \<Rightarrow> Editor2 \<Rightarrow> error + Editor2" where
  "apply_input (Update dt r1 r2) ed = update dt r1 r2 ed"
| "apply_input (KeyDown k) ed = key_down k ed"
| "apply_input (KeyUp k) ed = key_up k ed"
| "apply_input PlayPause ed = Inr (press_play_pause ed)"

fun run :: "input list \<Rightarrow> Editor2 \<Rightarrow> error + Editor2" where
  "run [] ed = Inr ed"
| "run (x # xs) ed = (case apply_input x ed of Inl err \<Rightarrow> Inl err | Inr ed' \<Rightarrow> run xs ed')"

text \<open>The values of \<^verbatim>\<open>rand()\<close> are never negative.\<close>

fun rand_ok :: "input \<Rightarrow> bool" where
  "rand_ok (Update dt r1 r2) = (0 \<le> r1 \<and> 0 \<le> r2)"
| "rand_ok _ = True"

text \<open>
  A frame whose time \<^verbatim>\<open>(now - last) / 1000.0f\<close> is not negative and so short
  that the chase, at 100 units per second, covers at most \<open>m\<close> in it.
\<close>

fun frame_ok :: "real \<Rightarrow> input \<Rightarrow> bool" where
  "frame_ok m (Update dt r1 r2) = (0 \<le> dt \<and> 100 * dt \<le> m)"
| "frame_ok m _ = True"

section \<open>Viewport mapping\<close>

text \<open>
  In \<^verbatim>\<open>uiViewport\<close> the library reports the item's top-left corner \<open>p\<close> and size
  \<open>s\<close> as float pairs, and the mouse position \<open>mp\<close>. The rectangle handed to
  \<^verbatim>\<open>drawSceneToViewport\<close> is
  \<^verbatim>\<open>SDL_Rect view = {(int)p.x, (int)p.y, (int)s.x, (int)s.y};\<close>
\<close>

record ImVec2 =
  im_x :: real
  im_y :: real

record SDL_Rect =
  r_x :: int
  r_y :: int
  r_w :: int
  r_h :: int

definition view_rect :: "ImVec2 \<Rightarrow> ImVec2 \<Rightarrow> SDL_Rect" where
  "view_rect p s =
     \<lparr>r_x = to_int (im_x p), r_y = to_int (im_y p), r_w = to_int (im_x s), r_h = to_int (im_y s)\<rparr>"

text \<open>
  \<^verbatim>\<open>float sx = (float)view.w / (float)core->cfg.width;
  float sy = (float)view.h / (float)core->cfg.height; SDL_RenderSetScale(core->renderer, sx, sy);\<close>
\<close>

definition render_scale :: "EngineConfig \<Rightarrow> SDL_Rect \<Rightarrow> error + ImVec2" where
  "render_scale c view =
     (case fdiv (of_int (r_w view)) (of_int (width c)) of Inl err \<Rightarrow> Inl err | Inr sx \<Rightarrow>
     (case fdiv (of_int (r_h view)) (of_int (height c)) of Inl err \<Rightarrow> Inl err | Inr sy \<Rightarrow>
        Inr \<lparr>im_x = sx, im_y = sy\<rparr>))"

text \<open>
  Modelled from the spec: the renderer is SDL's and its code is not part of the
  repository. Section 4.3 of the specification gives the forward mapping as
  \<^verbatim>\<open>screen_x = rect.x + world_x * (rect.w / world_width)\<close> and likewise for
  \<open>y\<close>: with \<^verbatim>\<open>SDL_RenderSetViewport(&view)\<close> and \<^verbatim>\<open>SDL_RenderSetScale(sx, sy)\<close>
  in force, the corner \<open>(ix, iy)\<close> of an \<^verbatim>\<open>SDL_Rect\<close> handed to the renderer is
  scaled and offset to the top-left corner of the viewport.
\<close>

definition sdl_render_point :: "SDL_Rect \<Rightarrow> ImVec2 \<Rightarrow> int \<Rightarrow> int \<Rightarrow> ImVec2" where
  "sdl_render_point view sc ix iy =
     \<lparr>im_x = of_int (r_x view) + of_int ix * im_x sc,
      im_y = of_int (r_y view) + of_int iy * im_y sc\<rparr>"

text \<open>
  Where \<^verbatim>\<open>drawSceneToViewport\<close> draws a Transform whose corner is the scene point
  \<open>q\<close>: it sets the scale above and hands the renderer
  \<^verbatim>\<open>SDL_Rect dst={(int)tr->x,(int)tr->y,(int)tr->w,(int)tr->h};\<close>, the corner
  truncated to whole scene units.
\<close>

definition world_to_screen :: "EngineConfig \<Rightarrow> SDL_Rect \<Rightarrow> ImVec2 \<Rightarrow> error + ImVec2" where
  "world_to_screen c view q =
     (case render_scale c view of Inl err \<Rightarrow> Inl err | Inr sc \<Rightarrow>
        Inr (sdl_render_point view sc (to_int (im_x q)) (to_int (im_y q))))"

text \<open>
  \<^verbatim>\<open>float sx = (mp.x - p.x) * (float)core->cfg.width / s.x;
  float sy = (mp.y - p.y) * (float)core->cfg.height / s.y;\<close>
\<close>

definition screen_to_world :: "EngineConfig \<Rightarrow> ImVec2 \<Rightarrow> ImVec2 \<Rightarrow> ImVec2 \<Rightarrow> error + ImVec2" where
  "screen_to_world c p s mp =
     (case fl (im_x mp - im_x p) of Inl err \<Rightarrow> Inl err | Inr ax \<Rightarrow>
     (case fl (ax * of_int (width c)) of Inl err \<Rightarrow> Inl err | Inr mx \<Rightarrow>
     (case fdiv mx (im_x s) of Inl err \<Rightarrow> Inl err | Inr sx \<Rightarrow>
     (case fl (im_y mp - im_y p) of Inl err \<Rightarrow> Inl err | Inr ay \<Rightarrow>
     (case fl (ay * of_int (height c)) of Inl err \<Rightarrow> Inl err | Inr my \<Rightarrow>
     (case fdiv my (im_y s) of Inl err \<Rightarrow> Inl err | Inr sy \<Rightarrow>
        Inr \<lparr>im_x = sx, im_y = sy\<rparr>))))))"

text \<open>Whether a Transform's rectangle lies in the world rectangle.\<close>

definition in_bounds :: "EngineConfig \<Rightarrow> Transform \<Rightarrow> bool" where
  "in_bounds c t =
     (0 \<le> t_x t \<and> 0 \<le> t_y t \<and>
      t_x t + t_w t \<le> of_int (width c) \<and> t_y t + t_h t \<le> of_int (height c))"

section \<open>The demo scene\<close>

text \<open>
  The editor as \<^verbatim>\<open>main\<close> constructs it, before the first call of
  \<^verbatim>\<open>spawnDemoScene\<close>: a window of 1280 by 720, an empty world, paused, score 0.
  No asset file is assumed present, so every \<^verbatim>\<open>load\<close> returns \<^verbatim>\<open>nullptr\<close>; the
  Sprite components are attached all the same.
\<close>

definition editor_init :: Editor2 where
  "editor_init =
     \<lparr>cfg = \<lparr>width = 1280, height = 720\<rparr>, texman = (\<lambda>_. None), world = World0,
      selected = None, playing = False, score = 0\<rparr>"

text \<open>
  The three entities of the demo scene, by texture, position and velocity, and an
  editor over a 1280 by 720 window holding a given list of entities. They name the
  states that the examples below pass through.
\<close>

definition demo_player :: "Texture \<Rightarrow> real \<Rightarrow> real \<Rightarrow> real \<Rightarrow> real \<Rightarrow> Entity" where
  "demo_player tx px py pvx pvy =
     \<lparr>eid = 1,
      comps = [CTransform \<lparr>t_owner = 1, t_x = px, t_y = py, t_w = 64, t_h = 64, t_angle = 0\<rparr>,
               CSprite \<lparr>s_owner = 1, s_tex = tx, s_scale = 1\<rparr>,
               CVelocity \<lparr>v_owner = 1, v_vx = pvx, v_vy = pvy\<rparr>]\<rparr>"

definition demo_target :: "Texture \<Rightarrow> real \<Rightarrow> real \<Rightarrow> Entity" where
  "demo_target tx px py =
     \<lparr>eid = 2,
      comps = [CTransform \<lparr>t_owner = 2, t_x = px, t_y = py, t_w = 32, t_h = 32, t_angle = 0\<rparr>,
               CSprite \<lparr>s_owner = 2, s_tex = tx, s_scale = 1\<rparr>]\<rparr>"

text \<open>The target with its height changed in the inspector (no texture).\<close>

definition tall_target :: "real \<Rightarrow> real \<Rightarrow> real \<Rightarrow> Entity" where
  "tall_target px py ph =
     \<lparr>eid = 2,
      comps = [CTransform \<lparr>t_owner = 2, t_x = px, t_y = py, t_w = 32, t_h = ph, t_angle = 0\<rparr>,
               CSprite \<lparr>s_owner = 2, s_tex = None, s_scale = 1\<rparr>]\<rparr>"

definition demo_enemy :: "Texture \<Rightarrow> real \<Rightarrow> real \<Rightarrow> Entity" where
  "demo_enemy tx px py =
     \<lparr>eid = 3,
      comps = [CTransform \<lparr>t_owner = 3, t_x = px, t_y = py, t_w = 48, t_h = 48, t_angle = 0\<rparr>,
               CSprite \<lparr>s_owner = 3, s_tex = tx, s_scale = 1\<rparr>]\<rparr>"

definition demo_editor :: "bool \<Rightarrow> int \<Rightarrow> Entity list \<Rightarrow> Editor2" where
  "demo_editor pl sc es =
     editor_init\<lparr>world := \<lparr>nextId = 4, ents = es\<rparr>, playing := pl, score := sc\<rparr>"

text \<open>
  Whether the rectangle of every entity that has a Transform lies in the world
  rectangle.
\<close>

definition entity_in_bounds :: "EngineConfig \<Rightarrow> Entity \<Rightarrow> bool" where
  "entity_in_bounds c e = (case getTransform e of None \<Rightarrow> True | Some t \<Rightarrow> in_bounds c t)"

definition world_in_bounds :: "Editor2 \<Rightarrow> bool" where
  "world_in_bounds ed = list_all (entity_in_bounds (cfg ed)) (ents (world ed))"

text \<open>
  What the step reads of an entity to give it a role, and the height with it:
  whether it has a Sprite, and the size of its Transform.
\<close>

definition shape :: "Entity \<Rightarrow> bool \<times> (real \<times> real) option" where
  "shape ent = (getSprite ent \<noteq> None, map_option (\<lambda>t. (t_w t, t_h t)) (getTransform ent))"

text \<open>
  The entity that the chase of a step moves: the enemy, when the role-finding loop
  finds a player and an enemy.
\<close>

definition chased :: "Editor2 \<Rightarrow> nat option" where
  "chased ed =
     (case find_roles (all_ents (world ed)) 0 Roles0 of
        Inl err \<Rightarrow> None
      | Inr r \<Rightarrow> (case (player r, enemy r) of (Some p, Some e) \<Rightarrow> Some e | _ \<Rightarrow> None))"

text \<open>
  Whether the rectangle of every entity that has a Transform, the chased one
  apart, lies in the world rectangle.
\<close>

definition others_in_bounds :: "Editor2 \<Rightarrow> bool" where
  "others_in_bounds ed =
     list_all (\<lambda>i. chased ed = Some i \<or> entity_in_bounds (cfg ed) (ents (world ed) ! i))
       [0..<length (ents (world ed))]"

text \<open>
  Two conditions on the sizes of the player and the enemy that the step finds.
  \<open>recentre_ok\<close>: the player's rectangle lies in the world when its corner is
  where the reset puts it. \<open>margin_ok m\<close>: the player exceeds the enemy by at
  least \<open>2 * m\<close> in width and in height. Both hold when the step finds no player
  or no enemy: then it neither chases nor resets.
\<close>

definition recentre_ok :: "Editor2 \<Rightarrow> bool" where
  "recentre_ok ed =
     (case find_roles (all_ents (world ed)) 0 Roles0 of
        Inl err \<Rightarrow> True
      | Inr r \<Rightarrow>
          (case (player r, enemy r) of
             (Some p, Some e) \<Rightarrow>
               (case transform_at ed p of
                  None \<Rightarrow> True
                | Some pt \<Rightarrow>
                    in_bounds (cfg ed)
                      (pt\<lparr>t_x := of_int (c_half (width (cfg ed)) - 32),
                          t_y := of_int (c_half (height (cfg ed)) - 32)\<rparr>))
           | _ \<Rightarrow> True))"

definition margin_ok :: "real \<Rightarrow> Editor2 \<Rightarrow> bool" where
  "margin_ok m ed =
     (case find_roles (all_ents (world ed)) 0 Roles0 of
        Inl err \<Rightarrow> True
      | Inr r \<Rightarrow>
          (case (player r, enemy r) of
             (Some p, Some e) \<Rightarrow>
               (case (transform_at ed p, transform_at ed e) of
                  (Some pt, Some et) \<Rightarrow>
                    m \<le> (t_w pt - t_w et) / 2 \<and> m \<le> (t_h pt - t_h et) / 2
                | _ \<Rightarrow> True)
           | _ \<Rightarrow> True))"



section \<open>Components: lookup\<close>

lemma getComponent_kind:
  "getComponent k e = Some c \<Longrightarrow> kind c = k"
  by (auto simp: getComponent_def find_Some_iff)



lemma find_put_first_same:
  "kind c' = k \<Longrightarrow>
   find (\<lambda>c. kind c = k) (put_first k c' cs) =
     (case find (\<lambda>c. kind c = k) cs of None \<Rightarrow> None | Some _ \<Rightarrow> Some c')"
  by (induction cs) simp_all

lemma find_put_first_other:
  "kind c' = k \<Longrightarrow> k' \<noteq> k \<Longrightarrow>
   find (\<lambda>c. kind c = k') (put_first k c' cs) = find (\<lambda>c. kind c = k') cs"
  by (induction cs) auto

lemma getTransform_None_iff:
  "getTransform e = None \<longleftrightarrow> getComponent KTransform e = None"
  by (auto simp: getTransform_def dest!: getComponent_kind split: option.splits Component.splits)

lemma getVelocity_None_iff:
  "getVelocity e = None \<longleftrightarrow> getComponent KVelocity e = None"
  by (auto simp: getVelocity_def dest!: getComponent_kind split: option.splits Component.splits)

lemma getTransform_setTransform:
  "getTransform (setTransform e t) = (case getTransform e of None \<Rightarrow> None | Some _ \<Rightarrow> Some t)"
  using getTransform_None_iff [of e]
  by (auto simp: getTransform_def setTransform_def getComponent_def find_put_first_same
           split: option.splits Component.splits)

lemma getSprite_setTransform:
  "getSprite (setTransform e t) = getSprite e"
  by (simp add: getSprite_def setTransform_def getComponent_def find_put_first_other)

lemma getVelocity_setVelocity:
  "getVelocity (setVelocity e v) = (case getVelocity e of None \<Rightarrow> None | Some _ \<Rightarrow> Some v)"
  using getVelocity_None_iff [of e]
  by (auto simp: getVelocity_def setVelocity_def getComponent_def find_put_first_same
           split: option.splits Component.splits)

lemma getTransform_setVelocity:
  "getTransform (setVelocity e v) = getTransform e"
  by (simp add: getTransform_def setVelocity_def getComponent_def find_put_first_other)



section \<open>Collision test: algebra\<close>

text \<open>
  C8. The test is symmetric for every pair of Transforms; a rectangle of
  non-negative width and height intersects itself; and two such rectangles that
  touch exactly at a vertical edge (the right side of one is the left side of the
  other, the vertical extents overlapping) or at a horizontal edge intersect.
\<close>

theorem aabbIntersect_sym_refl_touch:
  "aabbIntersect a b = aabbIntersect b a \<and>
   (0 \<le> t_w a \<and> 0 \<le> t_h a \<longrightarrow> aabbIntersect a a) \<and>
   (0 \<le> t_w a \<and> 0 \<le> t_w b \<and> t_x a + t_w a = t_x b \<and>
    t_y b \<le> t_y a + t_h a \<and> t_y a \<le> t_y b + t_h b \<longrightarrow> aabbIntersect a b) \<and>
   (0 \<le> t_h a \<and> 0 \<le> t_h b \<and> t_y a + t_h a = t_y b \<and>
    t_x b \<le> t_x a + t_w a \<and> t_x a \<le> t_x b + t_w b \<longrightarrow> aabbIntersect a b)"
  by (auto simp: aabbIntersect_def)

theorem aabbIntersect_sym_refl_touch_witness:
  "aabbIntersect (Transform0\<lparr>t_w := 64, t_h := 64\<rparr>) (Transform0\<lparr>t_w := 64, t_h := 64\<rparr>) \<and>
   aabbIntersect (Transform0\<lparr>t_w := 64, t_h := 64\<rparr>) (Transform0\<lparr>t_x := 64, t_w := 32, t_h := 32\<rparr>) \<and>
   aabbIntersect (Transform0\<lparr>t_x := 64, t_w := 32, t_h := 32\<rparr>) (Transform0\<lparr>t_w := 64, t_h := 64\<rparr>) \<and>
   aabbIntersect (Transform0\<lparr>t_w := 64, t_h := 64\<rparr>) (Transform0\<lparr>t_y := 64, t_w := 32, t_h := 32\<rparr>)"
  using aabbIntersect_sym_refl_touch
    [of "Transform0\<lparr>t_w := 64, t_h := 64\<rparr>" "Transform0\<lparr>t_x := 64, t_w := 32, t_h := 32\<rparr>"]
    aabbIntersect_sym_refl_touch
    [of "Transform0\<lparr>t_w := 64, t_h := 64\<rparr>" "Transform0\<lparr>t_y := 64, t_w := 32, t_h := 32\<rparr>"]
  by (simp add: Transform0_def aabbIntersect_def)

section \<open>State access\<close>

lemma transform_at_set_transform_at:
  "transform_at (set_transform_at j t ed) i =
     (if i = j then (case transform_at ed j of None \<Rightarrow> None | Some _ \<Rightarrow> Some t)
      else transform_at ed i)"
  by (simp add: transform_at_def set_transform_at_def modify_def getTransform_setTransform)

lemma set_transform_at_fields:
  "cfg (set_transform_at j t ed) = cfg ed"
  "score (set_transform_at j t ed) = score ed"
  "playing (set_transform_at j t ed) = playing ed"
  "selected (set_transform_at j t ed) = selected ed"
  "length (ents (world (set_transform_at j t ed))) = length (ents (world ed))"
  by (simp_all add: set_transform_at_def modify_def)

lemma physics_fields:
  "cfg (physics dt ed) = cfg ed"
  "score (physics dt ed) = score ed"
  "playing (physics dt ed) = playing ed"
  "selected (physics dt ed) = selected ed"
  "length (ents (world (physics dt ed))) = length (ents (world ed))"
  by (simp_all add: physics_def all_ents_def)

lemma transform_at_physics:
  "transform_at (physics dt ed) i =
     (if i < length (ents (world ed)) then getTransform (integrate (cfg ed) dt (ents (world ed) ! i))
      else None)"
  by (simp add: transform_at_def physics_def all_ents_def)

section \<open>Integration and clamp\<close>

lemma integrate_without_velocity:
  "getVelocity ent = None \<or> getTransform ent = None \<Longrightarrow> integrate c dt ent = ent"
  by (auto simp: integrate_def split: option.splits)

lemma integrate_keeps:
  assumes "getTransform ent = Some tr" and "in_bounds c tr"
  shows "\<exists>tr'. getTransform (integrate c dt ent) = Some tr' \<and>
           t_w tr' = t_w tr \<and> t_h tr' = t_h tr \<and> in_bounds c tr'"
proof (cases "getVelocity ent")
  case None
  with assms show ?thesis by (simp add: integrate_without_velocity)
next
  case (Some v)
  have "t_w tr \<le> of_int (width c)" "t_h tr \<le> of_int (height c)"
    using assms(2) by (simp_all add: in_bounds_def)
  with assms(1) Some show ?thesis
    by (simp add: integrate_def getTransform_setTransform in_bounds_def Let_def)
qed

lemma integrate_keeps_size:
  assumes "getTransform (integrate c dt ent) = Some tr'"
  shows "\<exists>tr. getTransform ent = Some tr \<and> t_w tr' = t_w tr \<and> t_h tr' = t_h tr"
  using assms
  by (auto simp: integrate_def getTransform_setTransform Let_def split: option.splits)

section \<open>Phases change one entity\<close>

lemma chase_cases:
  assumes "chase dt r ed = Inr ed2"
  shows "ed2 = ed \<or> (\<exists>e t. enemy r = Some e \<and> ed2 = set_transform_at e t ed)"
  using assms
  by (auto simp: chase_def Let_def split: option.splits sum.splits if_splits prod.splits)

lemma chase_moves:
  assumes "chase dt r ed = Inr ed2"
  shows "ed2 = ed \<or>
         (\<exists>p e pt et dx dy.
            player r = Some p \<and> enemy r = Some e \<and>
            transform_at ed p = Some pt \<and> transform_at ed e = Some et \<and>
            dx = (t_x pt + t_w pt / 2) - (t_x et + t_w et / 2) \<and>
            dy = (t_y pt + t_h pt / 2) - (t_y et + t_h et / 2) \<and>
            1 / 1000 < sqrt (dx * dx + dy * dy) \<and>
            ed2 = set_transform_at e
                    (et\<lparr>t_x := t_x et + dx / sqrt (dx * dx + dy * dy) * 100 * dt,
                        t_y := t_y et + dy / sqrt (dx * dx + dy * dy) * 100 * dt\<rparr>) ed)"
  using assms
  by (auto simp: chase_def fdiv_def fl_def Let_def
           split: option.splits sum.splits if_splits prod.splits)

lemma reset_moves:
  assumes "reset_on_catch r ed = Inr ed3"
  shows "ed3 = ed \<or>
         (\<exists>p e pt. player r = Some p \<and> enemy r = Some e \<and> transform_at ed p = Some pt \<and>
            ed3 = (set_transform_at p
                     (pt\<lparr>t_x := of_int (c_half (width (cfg ed)) - 32),
                         t_y := of_int (c_half (height (cfg ed)) - 32)\<rparr>) ed)\<lparr>score := 0\<rparr>)"
  using assms
  by (auto simp: reset_on_catch_def split: option.splits sum.splits if_splits prod.splits)

lemma pickup_cases:
  assumes "pickup r1 r2 r ed = Inr ed4"
  shows "ed4 = ed \<or>
         (\<exists>p pt t tt nx ny. player r = Some p \<and> transform_at ed p = Some pt \<and>
            target r = Some t \<and> transform_at ed t = Some tt \<and> aabbIntersect pt tt \<and>
            c_rem r1 (width (cfg ed) - to_int (t_w tt)) = Inr nx \<and>
            c_rem r2 (height (cfg ed) - to_int (t_h tt)) = Inr ny \<and>
            ed4 = (set_transform_at t (tt\<lparr>t_x := of_int nx, t_y := of_int ny\<rparr>) ed)
                    \<lparr>score := score ed + 1\<rparr>)"
  using assms
  by (auto simp: pickup_def split: option.splits sum.splits if_splits prod.splits)

lemma transform_at_score_update:
  "transform_at (ed\<lparr>score := n\<rparr>) i = transform_at ed i"
  by (simp add: transform_at_def)

lemmas editor_defs = editor_init_def demo_editor_def demo_player_def demo_target_def demo_enemy_def
  tall_target_def

lemmas comp_defs = getTransform_def getSprite_def getVelocity_def getComponent_def
  setTransform_def setVelocity_def addComponent_def

lemmas spawn_defs = spawnDemoScene_def create_def modify_def World0_def
  insert_at_def c_rem_def c_half_def mkTransform_def Transform0_def Sprite0_def Velocity0_def
  INVALID_ENTITY_def Let_def

lemmas step_defs = update_def physics_def integrate_def all_ents_def Roles0_def chase_def
  reset_on_catch_def pickup_def transform_at_def set_transform_at_def modify_def
  aabbIntersect_def fdiv_def fl_def finite_float_def FLT_MAX_def c_rem_def c_half_def to_int_def
  INT_MAX_def Let_def

section \<open>Spawning the demo scene\<close>

lemma length_insert_at:
  "length (insert_at k x xs) = Suc (length xs)"
  by (simp add: insert_at_def)

lemma set_insert_at:
  "set (insert_at k x xs) = insert x (set xs)"
proof -
  have "set (take k xs) \<union> set (drop k xs) = set xs"
    by (metis append_take_drop_id set_append)
  then show ?thesis by (auto simp: insert_at_def)
qed

lemma insert_at_nth_new:
  "insert_at k x xs ! min k (length xs) = x"
  by (simp add: insert_at_def nth_append min_def)

lemma insert_at_update_new:
  "(insert_at k x xs)[min k (length xs) := y] = insert_at k y xs"
  by (simp add: insert_at_def list_update_append min_def)

lemma create_fresh:
  assumes "\<forall>x\<in>set (ents wd). eid x \<noteq> nextId wd"
  shows "create k wd =
           (min k (length (ents wd)),
            \<lparr>nextId = (nextId wd + 1) mod 4294967296,
             ents = insert_at k \<lparr>eid = nextId wd, comps = []\<rparr> (ents wd)\<rparr>)"
  using assms by (simp add: create_def Let_def)

lemma modify_new:
  "modify (min k (length xs)) f \<lparr>nextId = n, ents = insert_at k x xs\<rparr> =
     \<lparr>nextId = n, ents = insert_at k (f x) xs\<rparr>"
  by (simp add: modify_def insert_at_nth_new insert_at_update_new)

lemma c_rem_nonneg:
  "0 \<le> a \<Longrightarrow> 0 < n \<Longrightarrow> c_rem a n = Inr (a mod n)"
  by (simp add: c_rem_def)

lemma insert_at_Nil:
  "insert_at k x [] = [x]"
  by (simp add: insert_at_def)

lemma spawnDemoScene_result:
  assumes "48 < width (cfg ed)" and "48 < height (cfg ed)"
    and "0 \<le> r1" and "0 \<le> r2" and "0 \<le> r3" and "0 \<le> r4"
  shows "spawnDemoScene k1 k2 k3 r1 r2 r3 r4 ed =
           Inr (ed\<lparr>world :=
                    \<lparr>nextId = 4,
                     ents = insert_at k3
                              (demo_enemy (texman ed ''enemy.png'')
                                 (of_int (r3 mod (width (cfg ed) - 48)))
                                 (of_int (r4 mod (height (cfg ed) - 48))))
                           (insert_at k2
                              (demo_target (texman ed ''target.png'')
                                 (of_int (r1 mod (width (cfg ed) - 32)))
                                 (of_int (r2 mod (height (cfg ed) - 32))))
                              [demo_player (texman ed ''player.png'')
                                 (of_int (c_half (width (cfg ed)) - 32))
                                 (of_int (c_half (height (cfg ed)) - 32)) 0 0])\<rparr>,
                  selected := None, score := 0\<rparr>)"
    (is "_ = Inr (ed\<lparr>world := \<lparr>nextId = 4, ents = insert_at k3 ?E (insert_at k2 ?T [?P])\<rparr>,
                  selected := None, score := 0\<rparr>)")
proof -
  let ?W = "width (cfg ed)" and ?H = "height (cfg ed)"
  let ?fP = "addComponent (CVelocity Velocity0) \<circ>
             addComponent (CSprite (Sprite0\<lparr>s_tex := texman ed ''player.png''\<rparr>)) \<circ>
             addComponent (CTransform (mkTransform (of_int (c_half ?W - 32)) (of_int (c_half ?H - 32)) 64 64))"
  let ?fT = "addComponent (CSprite (Sprite0\<lparr>s_tex := texman ed ''target.png''\<rparr>)) \<circ>
             addComponent (CTransform (mkTransform (of_int (r1 mod (?W - 32))) (of_int (r2 mod (?H - 32))) 32 32))"
  let ?fE = "addComponent (CSprite (Sprite0\<lparr>s_tex := texman ed ''enemy.png''\<rparr>)) \<circ>
             addComponent (CTransform (mkTransform (of_int (r3 mod (?W - 48))) (of_int (r4 mod (?H - 48))) 48 48))"
  have P: "?fP \<lparr>eid = 1, comps = []\<rparr> = ?P"
    by (simp add: addComponent_def demo_player_def mkTransform_def Transform0_def Sprite0_def
          Velocity0_def)
  have T: "?fT \<lparr>eid = 2, comps = []\<rparr> = ?T"
    by (simp add: addComponent_def demo_target_def mkTransform_def Transform0_def Sprite0_def)
  have E: "?fE \<lparr>eid = 3, comps = []\<rparr> = ?E"
    by (simp add: addComponent_def demo_enemy_def mkTransform_def Transform0_def Sprite0_def)
  have c1: "create k1 World0 = (0, \<lparr>nextId = 2, ents = [\<lparr>eid = 1, comps = []\<rparr>]\<rparr>)"
    by (simp add: create_def World0_def Let_def insert_at_Nil)
  have m1: "modify 0 f \<lparr>nextId = 2, ents = [x]\<rparr> = \<lparr>nextId = 2, ents = [f x]\<rparr>" for f x
    by (simp add: modify_def)
  have c2: "create k2 \<lparr>nextId = 2, ents = [?P]\<rparr> =
      (min k2 (length [?P]), \<lparr>nextId = 3, ents = insert_at k2 \<lparr>eid = 2, comps = []\<rparr> [?P]\<rparr>)"
    by (simp add: create_def Let_def demo_player_def)
  have c3: "create k3 \<lparr>nextId = 3, ents = insert_at k2 ?T [?P]\<rparr> =
      (min k3 (length (insert_at k2 ?T [?P])),
       \<lparr>nextId = 4, ents = insert_at k3 \<lparr>eid = 3, comps = []\<rparr> (insert_at k2 ?T [?P])\<rparr>)"
    using create_fresh [of "\<lparr>nextId = 3, ents = insert_at k2 ?T [?P]\<rparr>" k3]
    by (simp add: set_insert_at demo_player_def demo_target_def)
  have r: "c_rem r1 (?W - 32) = Inr (r1 mod (?W - 32))" "c_rem r2 (?H - 32) = Inr (r2 mod (?H - 32))"
    "c_rem r3 (?W - 48) = Inr (r3 mod (?W - 48))" "c_rem r4 (?H - 48) = Inr (r4 mod (?H - 48))"
    using assms by (simp_all add: c_rem_nonneg)
  show ?thesis
    unfolding spawnDemoScene_def Let_def c1 prod.case m1 r sum.case
    unfolding P [unfolded o_def] c2 prod.case modify_new T [unfolded o_def] c3 modify_new
      E [unfolded o_def]
    by (rule refl)
qed


lemma mod_in_bounds:
  fixes r n :: int and d :: int
  assumes "0 \<le> r" and "d < n" and "0 \<le> d"
  shows "0 \<le> real_of_int (r mod (n - d)) \<and> real_of_int (r mod (n - d)) + real_of_int d \<le> real_of_int n"
proof -
  have "0 \<le> r mod (n - d)" and "r mod (n - d) < n - d"
    using assms by simp_all
  then have "0 \<le> r mod (n - d)" and "r mod (n - d) + d \<le> n" by simp_all
  then show ?thesis
    by (metis of_int_0_le_iff of_int_add of_int_le_iff)
qed

text \<open>
  C2 (amended). Pressed in either state, with a window larger than 48 by 48 and any
  values of \<^verbatim>\<open>rand()\<close>, "Spawn Demo" succeeds; the result does not depend on
  the old world, selection or score; the new world holds exactly the three demo
  entities (the player 64 by 64 with its centre at the world centre, the target 32
  by 32 and the enemy 48 by 48 at in-bounds positions) in whatever order the table
  puts them; the selection is cleared and the score is 0. The playing flag is left
  as it was: the session is Paused afterwards only if it was Paused before.
\<close>

theorem spawn_demo_rebuilds_scene:
  assumes "48 < width (cfg ed)" and "48 < height (cfg ed)"
    and "0 \<le> r1" and "0 \<le> r2" and "0 \<le> r3" and "0 \<le> r4"
  shows "\<exists>ed' P T E.
           spawnDemoScene k1 k2 k3 r1 r2 r3 r4 ed = Inr ed' \<and>
           spawnDemoScene k1 k2 k3 r1 r2 r3 r4 (ed\<lparr>world := wd, selected := sel, score := sc\<rparr>) = Inr ed' \<and>
           P = demo_player (texman ed ''player.png'')
                 (of_int (c_half (width (cfg ed)) - 32)) (of_int (c_half (height (cfg ed)) - 32)) 0 0 \<and>
           T = demo_target (texman ed ''target.png'')
                 (of_int (r1 mod (width (cfg ed) - 32))) (of_int (r2 mod (height (cfg ed) - 32))) \<and>
           E = demo_enemy (texman ed ''enemy.png'')
                 (of_int (r3 mod (width (cfg ed) - 48))) (of_int (r4 mod (height (cfg ed) - 48))) \<and>
           ents (world ed') = insert_at k3 E (insert_at k2 T [P]) \<and>
           set (ents (world ed')) = {P, T, E} \<and> length (ents (world ed')) = 3 \<and>
           entity_in_bounds (cfg ed) T \<and> entity_in_bounds (cfg ed) E \<and>
           selected ed' = None \<and> score ed' = 0 \<and>
           playing ed' = playing ed \<and> cfg ed' = cfg ed \<and> texman ed' = texman ed"
proof -
  have T: "entity_in_bounds (cfg ed) (demo_target tx (of_int (r1 mod (width (cfg ed) - 32)))
             (of_int (r2 mod (height (cfg ed) - 32))))" for tx
    using mod_in_bounds [of r1 32 "width (cfg ed)"] mod_in_bounds [of r2 32 "height (cfg ed)"] assms
    by (simp add: entity_in_bounds_def demo_target_def getTransform_def getComponent_def in_bounds_def)
  have E: "entity_in_bounds (cfg ed) (demo_enemy tx (of_int (r3 mod (width (cfg ed) - 48)))
             (of_int (r4 mod (height (cfg ed) - 48))))" for tx
    using mod_in_bounds [of r3 48 "width (cfg ed)"] mod_in_bounds [of r4 48 "height (cfg ed)"] assms
    by (simp add: entity_in_bounds_def demo_enemy_def getTransform_def getComponent_def in_bounds_def)
  show ?thesis
    using spawnDemoScene_result [OF assms, of k1 k2 k3]
      spawnDemoScene_result [of "ed\<lparr>world := wd, selected := sel, score := sc\<rparr>" r1 r2 r3 r4 k1 k2 k3]
      assms T E
    by (simp add: set_insert_at length_insert_at insert_commute)
qed


theorem spawn_demo_rebuilds_scene_witness:
  "\<exists>ed'. spawnDemoScene 0 1 2 77 1300 2000 11 (demo_editor False 5 [demo_target None 3 4]) = Inr ed' \<and>
     ents (world ed') =
       [demo_player None 608 328 0 0, demo_target None 77 612, demo_enemy None 768 11] \<and>
     selected ed' = None \<and> score ed' = 0 \<and> \<not> playing ed'"
  using spawn_demo_rebuilds_scene
    [where ed = "demo_editor False 5 [demo_target None 3 4]" and wd = World0 and sel = None
       and sc = 0 and ?r1.0 = 77 and ?r2.0 = 1300 and ?r3.0 = 2000 and ?r4.0 = 11
       and ?k1.0 = 0 and ?k2.0 = 1 and ?k3.0 = 2]
  by (auto simp: demo_editor_def editor_init_def insert_at_def c_half_def)

text \<open>
  C2 as stated fails: pressed while Playing, "Spawn Demo" leaves the session Playing.
\<close>

theorem spawn_demo_keeps_playing:
  "spawnDemoScene 0 1 2 1000 500 50 336 (demo_editor True 7 [demo_target None 3 4]) =
     Inr (demo_editor True 0
       [demo_player None 608 328 0 0, demo_target None 1000 500, demo_enemy None 50 336]) \<and>
   playing (demo_editor True 0
       [demo_player None 608 328 0 0, demo_target None 1000 500, demo_enemy None 50 336])"
  by (simp add: spawnDemoScene_result demo_editor_def editor_init_def
        insert_at_def c_half_def)

section \<open>Play and pause\<close>

lemma run_append:
  "run (xs @ ys) ed = (case run xs ed of Inl err \<Rightarrow> Inl err | Inr ed' \<Rightarrow> run ys ed')"
  by (induction xs arbitrary: ed) (simp_all split: sum.splits)

lemma paused_input:
  "\<not> playing ed \<Longrightarrow> PlayPause \<noteq> x \<Longrightarrow> apply_input x ed = Inr ed"
  by (cases x) (simp_all add: update_def key_down_def key_up_def)

lemma paused_run:
  "\<not> playing ed \<Longrightarrow> PlayPause \<notin> set xs \<Longrightarrow> run xs ed = Inr ed"
  by (induction xs) (simp_all add: paused_input)

text \<open>
  C7. Pressing the play/pause control changes nothing but the flag, so pressing it
  twice gives back the very same session: world, entities, components and score.
  While paused, \<open>update\<close> returns the session unchanged for every frame time and
  every value of \<^verbatim>\<open>rand()\<close>: no Transform and no score changes; the keyboard
  handlers of the main loop, gated by the same flag, change nothing either. So a
  session that is playing, is paused, goes through any number of frames and key
  events, and is resumed, is the session it was: the flag gates the execution of
  the step, the world is still there.
\<close>

theorem pause_preserves_session:
  "press_play_pause (press_play_pause ed) = ed \<and>
   world (press_play_pause ed) = world ed \<and>
   score (press_play_pause ed) = score ed \<and>
   selected (press_play_pause ed) = selected ed \<and>
   (\<not> playing ed \<longrightarrow>
      update dt r1 r2 ed = Inr ed \<and> key_down k ed = Inr ed \<and> key_up k ed = Inr ed) \<and>
   (playing ed \<and> PlayPause \<notin> set xs \<longrightarrow>
      run (PlayPause # xs) ed = Inr (press_play_pause ed) \<and>
      run (PlayPause # xs @ [PlayPause]) ed = Inr ed)"
proof -
  have "run (PlayPause # xs) ed = Inr (press_play_pause ed)"
    and "run (PlayPause # xs @ [PlayPause]) ed = Inr ed"
    if "playing ed" and "PlayPause \<notin> set xs"
    using that paused_run [of "press_play_pause ed" xs]
    by (simp_all add: run_append press_play_pause_def)
  then show ?thesis
    by (simp add: press_play_pause_def update_def key_down_def key_up_def)
qed

theorem pause_preserves_session_witness:
  "\<not> playing (demo_editor False 3 [demo_player None 608 328 (- 200) 0, demo_target None 608 328]) \<and>
   update 4 5 7 (demo_editor False 3 [demo_player None 608 328 (- 200) 0, demo_target None 608 328])
     = Inr (demo_editor False 3 [demo_player None 608 328 (- 200) 0, demo_target None 608 328]) \<and>
   playing (demo_editor True 3 [demo_player None 608 328 (- 200) 0, demo_target None 608 328]) \<and>
   run [PlayPause, Update 4 5 7, KeyUp SDLK_a, Update (1 / 60) 8 9, PlayPause]
       (demo_editor True 3 [demo_player None 608 328 (- 200) 0, demo_target None 608 328])
     = Inr (demo_editor True 3 [demo_player None 608 328 (- 200) 0, demo_target None 608 328])"
  using pause_preserves_session
      [where ed = "demo_editor False 3 [demo_player None 608 328 (- 200) 0, demo_target None 608 328]"
         and dt = 4 and ?r1.0 = 5 and ?r2.0 = 7 and k = SDLK_w and xs = "[]"]
    pause_preserves_session
      [where ed = "demo_editor True 3 [demo_player None 608 328 (- 200) 0, demo_target None 608 328]"
         and dt = 4 and ?r1.0 = 5 and ?r2.0 = 7 and k = SDLK_w
         and xs = "[Update 4 5 7, KeyUp SDLK_a, Update (1 / 60) 8 9]"]
  by (simp add: demo_editor_def)

section \<open>Viewport mapping\<close>

lemma to_int_of_int:
  "to_int (of_int n) = n"
  by (simp add: to_int_def)

lemma fl_in_range:
  "\<bar>x\<bar> \<le> FLT_MAX \<Longrightarrow> fl x = Inr x"
  by (simp add: fl_def finite_float_def)

lemma fdiv_in_range:
  "b \<noteq> 0 \<Longrightarrow> \<bar>a / b\<bar> \<le> FLT_MAX \<Longrightarrow> fdiv a b = Inr (a / b)"
  by (simp add: fdiv_def fl_in_range)

lemma to_int_nonneg_bounds:
  assumes "0 \<le> f"
  shows "of_int (to_int f) \<le> f \<and> f - of_int (to_int f) < 1"
  using assms unfolding to_int_def by (auto; linarith)

text \<open>One axis of the round trip.\<close>

lemma axis_round_trip:
  fixes m o' :: real and W sw :: int
  assumes W: "0 < W" and sw: "0 < sw"
    and lo: "o' \<le> m" and hi: "m \<le> o' + of_int sw"
    and range: "of_int sw * of_int W \<le> FLT_MAX"
  shows "fl (m - o') = Inr (m - o')"
    and "fl ((m - o') * of_int W) = Inr ((m - o') * of_int W)"
    and "fdiv ((m - o') * of_int W) (of_int sw) = Inr ((m - o') * of_int W / of_int sw)"
    and "fdiv (of_int sw) (of_int W) = Inr (of_int sw / of_int W)"
    and "of_int (to_int ((m - o') * of_int W / of_int sw)) * (of_int sw / of_int W) \<le> m - o'"
    and "m - o' - of_int (to_int ((m - o') * of_int W / of_int sw)) * (of_int sw / of_int W)
           < of_int sw / of_int W"
    and "of_int (to_int ((m - o') * of_int W / of_int sw)) * (of_int sw / of_int W) = m - o' \<longleftrightarrow>
           (m - o') * of_int W / of_int sw = of_int (to_int ((m - o') * of_int W / of_int sw))"
proof -
  let ?W = "real_of_int W" and ?s = "real_of_int sw"
  let ?d = "m - o'"
  let ?q = "?d * ?W / ?s"
  have Wr: "1 \<le> ?W" and sr: "1 \<le> ?s" using W sw by simp_all
  have d: "0 \<le> ?d" "?d \<le> ?s" using lo hi by simp_all
  have dW: "?d * ?W \<le> ?s * ?W" using d Wr by (simp add: mult_right_mono)
  have dW0: "0 \<le> ?d * ?W" using d Wr by simp
  have s_le: "?s \<le> ?s * ?W" using Wr sr by (simp add: mult_le_cancel_left1)
  have q0: "0 \<le> ?q" using dW0 sr by simp
  have q_le: "?q \<le> ?d * ?W" using dW0 sr by (simp add: divide_le_eq mult_le_cancel_left1)
  have sc_le: "?s / ?W \<le> ?s" using Wr sr by (simp add: divide_le_eq mult_le_cancel_left1)
  have sc0: "0 < ?s / ?W" using Wr sr by simp
  have a1: "\<bar>?d\<bar> \<le> FLT_MAX" using d s_le range by linarith
  have a2: "\<bar>?d * ?W\<bar> \<le> FLT_MAX" using dW0 dW range by linarith
  have a3: "\<bar>?q\<bar> \<le> FLT_MAX" using q0 q_le dW range by linarith
  have a4: "\<bar>?s / ?W\<bar> \<le> FLT_MAX" using sc0 sc_le s_le range by linarith
  have s0: "?s \<noteq> 0" and W0: "?W \<noteq> 0" using W sw by simp_all
  show "fl ?d = Inr ?d" by (rule fl_in_range [OF a1])
  show "fl (?d * ?W) = Inr (?d * ?W)" by (rule fl_in_range [OF a2])
  show "fdiv (?d * ?W) ?s = Inr ?q" by (rule fdiv_in_range [OF s0 a3])
  show "fdiv ?s ?W = Inr (?s / ?W)" by (rule fdiv_in_range [OF W0 a4])
  let ?k = "real_of_int (to_int ?q)"
  have k: "?k \<le> ?q" "?q - ?k < 1" using to_int_nonneg_bounds [OF q0] by simp_all
  have bk: "?q * (?s / ?W) = ?d" using Wr sr by simp
  have "?k * (?s / ?W) \<le> ?q * (?s / ?W)"
    by (rule mult_right_mono [OF k(1) less_imp_le [OF sc0]])
  then show "?k * (?s / ?W) \<le> ?d" by (simp only: bk)
  have "(?q - ?k) * (?s / ?W) < 1 * (?s / ?W)"
    by (rule mult_strict_right_mono [OF k(2) sc0])
  then have "?q * (?s / ?W) - ?k * (?s / ?W) < ?s / ?W"
    by (simp only: left_diff_distrib mult_1)
  then show "?d - ?k * (?s / ?W) < ?s / ?W" by (simp only: bk)
  have sc_ne: "?s / ?W \<noteq> 0"
    by (rule less_imp_neq [THEN not_sym, OF sc0])
  have "?k * (?s / ?W) = ?q * (?s / ?W) \<longleftrightarrow> ?k = ?q"
    unfolding mult_cancel_right using sc_ne by blast
  then show "?k * (?s / ?W) = ?d \<longleftrightarrow> ?q = ?k"
    by (simp only: bk) (rule eq_commute)
qed

text \<open>
  C4 (amended). Take a world of positive width and height, a viewport item whose
  corner and size, as the library reports them, are whole numbers of pixels, the
  size positive (and its products with the world's extent within the float
  range), and a screen point inside the item. Mapping the point to scene
  coordinates with the inverse formula succeeds. Mapping the result back the way
  \<^verbatim>\<open>drawSceneToViewport\<close> draws a Transform whose corner is there (the forward
  formula, applied to the corner truncated to whole scene units) gives a point at
  or before the screen point on each axis, less than one scene unit at the scale of
  the viewport (\<open>R.w / width\<close>, \<open>R.h / height\<close>) away from it. On an axis it is
  the screen point itself exactly when the scene coordinate of the point on that
  axis is a whole number.
\<close>

theorem viewport_round_trip:
  assumes "0 < width c" and "0 < height c"
    and "im_x p = of_int px" and "im_y p = of_int py"
    and "im_x s = of_int sw" and "im_y s = of_int sh"
    and "0 < sw" and "0 < sh"
    and "im_x p \<le> im_x mp" and "im_x mp \<le> im_x p + im_x s"
    and "im_y p \<le> im_y mp" and "im_y mp \<le> im_y p + im_y s"
    and "of_int sw * of_int (width c) \<le> FLT_MAX"
    and "of_int sh * of_int (height c) \<le> FLT_MAX"
  shows "\<exists>q r. screen_to_world c p s mp = Inr q \<and>
           world_to_screen c (view_rect p s) q = Inr r \<and>
           im_x r \<le> im_x mp \<and> im_x mp - im_x r < of_int sw / of_int (width c) \<and>
           im_y r \<le> im_y mp \<and> im_y mp - im_y r < of_int sh / of_int (height c) \<and>
           (im_x r = im_x mp \<longleftrightarrow> im_x q = of_int (to_int (im_x q))) \<and>
           (im_y r = im_y mp \<longleftrightarrow> im_y q = of_int (to_int (im_y q)))"
proof -
  note X = axis_round_trip [of "width c" sw "of_int px" "im_x mp"]
  note Y = axis_round_trip [of "height c" sh "of_int py" "im_y mp"]
  have x: "0 < width c" "0 < sw" "of_int px \<le> im_x mp" "im_x mp \<le> of_int px + of_int sw"
      "of_int sw * of_int (width c) \<le> FLT_MAX"
    using assms by simp_all
  have y: "0 < height c" "0 < sh" "of_int py \<le> im_y mp" "im_y mp \<le> of_int py + of_int sh"
      "of_int sh * of_int (height c) \<le> FLT_MAX"
    using assms by simp_all
  let ?q = "\<lparr>im_x = (im_x mp - of_int px) * of_int (width c) / of_int sw,
             im_y = (im_y mp - of_int py) * of_int (height c) / of_int sh\<rparr>"
  let ?r = "\<lparr>im_x = of_int px + of_int (to_int (im_x ?q)) * (of_int sw / of_int (width c)),
             im_y = of_int py + of_int (to_int (im_y ?q)) * (of_int sh / of_int (height c))\<rparr>"
  have s2w: "screen_to_world c p s mp = Inr ?q"
    using assms(3-6) X(1-3) [OF x] Y(1-3) [OF y] by (simp add: screen_to_world_def)
  have w2s: "world_to_screen c (view_rect p s) ?q = Inr ?r"
    using assms(3-6) X(4) [OF x] Y(4) [OF y]
    by (simp add: world_to_screen_def render_scale_def view_rect_def sdl_render_point_def
          to_int_of_int)
  have "im_x ?r \<le> im_x mp" "im_x mp - im_x ?r < of_int sw / of_int (width c)"
    "im_x ?r = im_x mp \<longleftrightarrow> im_x ?q = of_int (to_int (im_x ?q))"
    using X(5-7) [OF x] by auto
  moreover have "im_y ?r \<le> im_y mp" "im_y mp - im_y ?r < of_int sh / of_int (height c)"
    "im_y ?r = im_y mp \<longleftrightarrow> im_y ?q = of_int (to_int (im_y ?q))"
    using Y(5-7) [OF y] by auto
  ultimately show ?thesis
    using s2w w2s by blast
qed

theorem viewport_round_trip_witness:
  "\<exists>q r. screen_to_world \<lparr>width = 1280, height = 720\<rparr> \<lparr>im_x = 8, im_y = 50\<rparr>
           \<lparr>im_x = 640, im_y = 360\<rparr> \<lparr>im_x = 100, im_y = 75\<rparr> = Inr q \<and>
        world_to_screen \<lparr>width = 1280, height = 720\<rparr>
           (view_rect \<lparr>im_x = 8, im_y = 50\<rparr> \<lparr>im_x = 640, im_y = 360\<rparr>) q = Inr r \<and>
        im_x r \<le> 100 \<and> 100 - im_x r < 1 / 2 \<and> im_y r \<le> 75 \<and> 75 - im_y r < 1 / 2"
  using viewport_round_trip
      [of "\<lparr>width = 1280, height = 720\<rparr>" "\<lparr>im_x = 8, im_y = 50\<rparr>" 8 50
          "\<lparr>im_x = 640, im_y = 360\<rparr>" 640 360 "\<lparr>im_x = 100, im_y = 75\<rparr>"]
  by (simp add: FLT_MAX_def) blast

text \<open>
  C4 as stated fails, in two ways. A viewport of 300 by 150 whole pixels at the
  origin: the screen point (100, 75), inside it, maps to the scene point
  (1280/3, 360), whose truncation 426 is drawn at 99.84375, about a sixth of a
  pixel before the point: the round trip is neither exact nor within the rounding
  of floats. And when the reported size is not a whole number of pixels the scene
  is drawn into the truncated rectangle while the mouse is mapped with the
  untruncated one: in a viewport 200.5 wide the screen point (100.25, 75) maps to
  the scene point (640, 360), which is drawn at (100, 75).
\<close>

theorem viewport_round_trip_truncates:
  "screen_to_world \<lparr>width = 1280, height = 720\<rparr> \<lparr>im_x = 0, im_y = 0\<rparr>
       \<lparr>im_x = 300, im_y = 150\<rparr> \<lparr>im_x = 100, im_y = 75\<rparr>
     = Inr \<lparr>im_x = 1280 / 3, im_y = 360\<rparr> \<and>
   world_to_screen \<lparr>width = 1280, height = 720\<rparr>
       (view_rect \<lparr>im_x = 0, im_y = 0\<rparr> \<lparr>im_x = 300, im_y = 150\<rparr>) \<lparr>im_x = 1280 / 3, im_y = 360\<rparr>
     = Inr \<lparr>im_x = 3195 / 32, im_y = 75\<rparr> \<and>
   screen_to_world \<lparr>width = 1280, height = 720\<rparr> \<lparr>im_x = 0, im_y = 0\<rparr>
       \<lparr>im_x = 401 / 2, im_y = 150\<rparr> \<lparr>im_x = 401 / 4, im_y = 75\<rparr>
     = Inr \<lparr>im_x = 640, im_y = 360\<rparr> \<and>
   world_to_screen \<lparr>width = 1280, height = 720\<rparr>
       (view_rect \<lparr>im_x = 0, im_y = 0\<rparr> \<lparr>im_x = 401 / 2, im_y = 150\<rparr>) \<lparr>im_x = 640, im_y = 360\<rparr>
     = Inr \<lparr>im_x = 100, im_y = 75\<rparr>"
  by (simp add: screen_to_world_def world_to_screen_def render_scale_def view_rect_def
        sdl_render_point_def fdiv_def fl_def finite_float_def FLT_MAX_def to_int_def)

section \<open>Enemy chase\<close>

lemma sqrt_sum_squares_pos:
  fixes a b :: real
  assumes "1 / 1000 < sqrt (a * a + b * b)"
  shows "(a / sqrt (a * a + b * b)) * (a / sqrt (a * a + b * b)) +
         (b / sqrt (a * a + b * b)) * (b / sqrt (a * a + b * b)) = 1"
proof -
  let ?d = "sqrt (a * a + b * b)"
  have pos: "0 < ?d" using assms by linarith
  have sq: "?d * ?d = a * a + b * b"
    by (metis real_sqrt_mult_self abs_of_nonneg add_nonneg_nonneg zero_le_square real_sqrt_mult)
  have "(a / ?d) * (a / ?d) + (b / ?d) * (b / ?d) = (a * a + b * b) / (?d * ?d)"
    by (simp only: times_divide_times_eq add_divide_distrib)
  also have "\<dots> = (a * a + b * b) / (a * a + b * b)"
    by (simp only: sq)
  also have "\<dots> = 1"
  proof -
    have "0 < ?d * ?d" by (rule mult_pos_pos [OF pos pos])
    then have "0 < a * a + b * b" by (simp only: sq)
    then have "a * a + b * b \<noteq> 0" by (rule less_imp_neq [THEN not_sym])
    then show ?thesis by (rule divide_self)
  qed
  finally show ?thesis .
qed

lemma abs_le_sqrt_sum:
  fixes a b :: real
  shows "\<bar>a\<bar> \<le> sqrt (a * a + b * b)"
proof -
  have "sqrt (a * a) \<le> sqrt (a * a + b * b)"
    by (rule real_sqrt_le_mono) simp
  then show ?thesis by (simp only: real_sqrt_abs2)
qed

lemma abs_le_sqrt_sum2:
  fixes a b :: real
  shows "\<bar>b\<bar> \<le> sqrt (a * a + b * b)"
  using abs_le_sqrt_sum [of b a] by (simp only: add.commute)

lemma unit_component:
  fixes a d :: real
  assumes "\<bar>a\<bar> \<le> d" and "0 < d"
  shows "\<bar>a / d\<bar> \<le> 1"
  using assms by (simp add: abs_divide divide_le_eq)

lemma square_bound:
  fixes a c :: real
  assumes "\<bar>a\<bar> \<le> c"
  shows "0 \<le> a * a \<and> a * a \<le> c * c"
proof -
  have "\<bar>a\<bar> * \<bar>a\<bar> \<le> c * c"
    using assms by (intro mult_mono) simp_all
  then show ?thesis by (simp add: abs_mult_self_eq)
qed

text \<open>Below \<open>10^18\<close> no operation of the chase leaves the float range.\<close>

lemma chase_in_range:
  fixes xp wp xe we yp hp ye he dt :: real
  defines "B \<equiv> 1000000000000000000"
  assumes b: "\<bar>xp\<bar> \<le> B" "\<bar>wp\<bar> \<le> B" "\<bar>xe\<bar> \<le> B" "\<bar>we\<bar> \<le> B"
             "\<bar>yp\<bar> \<le> B" "\<bar>hp\<bar> \<le> B" "\<bar>ye\<bar> \<le> B" "\<bar>he\<bar> \<le> B"
  shows "list_all finite_float
           [wp / 2, xp + wp / 2, we / 2, xe + we / 2, (xp + wp / 2) - (xe + we / 2),
            hp / 2, yp + hp / 2, he / 2, ye + he / 2, (yp + hp / 2) - (ye + he / 2),
            ((xp + wp / 2) - (xe + we / 2)) * ((xp + wp / 2) - (xe + we / 2)),
            ((yp + hp / 2) - (ye + he / 2)) * ((yp + hp / 2) - (ye + he / 2)),
            ((xp + wp / 2) - (xe + we / 2)) * ((xp + wp / 2) - (xe + we / 2)) +
            ((yp + hp / 2) - (ye + he / 2)) * ((yp + hp / 2) - (ye + he / 2))]"
proof -
  let ?dx = "(xp + wp / 2) - (xe + we / 2)" and ?dy = "(yp + hp / 2) - (ye + he / 2)"
  have big: "3 * B \<le> FLT_MAX" "(3 * B) * (3 * B) + (3 * B) * (3 * B) \<le> FLT_MAX"
    by (simp_all add: B_def FLT_MAX_def)
  have B0: "0 \<le> B" by (simp add: B_def)
  have half: "\<bar>v / 2\<bar> \<le> 3 * B" if "\<bar>v\<bar> \<le> B" for v :: real
    using that B0 by linarith
  have centre: "\<bar>u + v / 2\<bar> \<le> 3 * B" if "\<bar>u\<bar> \<le> B" "\<bar>v\<bar> \<le> B" for u v :: real
    using that B0 by linarith
  have diff: "\<bar>(u + v / 2) - (u' + v' / 2)\<bar> \<le> 3 * B"
    if "\<bar>u\<bar> \<le> B" "\<bar>v\<bar> \<le> B" "\<bar>u'\<bar> \<le> B" "\<bar>v'\<bar> \<le> B" for u v u' v' :: real
    using that by linarith
  have fin: "finite_float v" if "\<bar>v\<bar> \<le> 3 * B" for v
    using that big(1) by (simp add: finite_float_def)
  note sx = square_bound [OF diff [OF b(1,2,3,4)]] and sy = square_bound [OF diff [OF b(5,6,7,8)]]
  have sq: "finite_float (?dx * ?dx)" "finite_float (?dy * ?dy)"
    "finite_float (?dx * ?dx + ?dy * ?dy)"
    unfolding finite_float_def using sx sy big(2) B0 by linarith+
  show ?thesis
    by (simp only: list.pred_inject simp_thms) (intro conjI sq fin half centre diff b)
qed

lemma step_in_range:
  fixes n dt x :: real
  assumes "\<bar>n\<bar> \<le> 1" and "\<bar>dt\<bar> \<le> 1000000000000000000" and "\<bar>x\<bar> \<le> 1000000000000000000"
  shows "finite_float n \<and> list_all finite_float [n * 100, n * 100 * dt, x + n * 100 * dt]"
proof -
  have a: "\<bar>n * 100\<bar> \<le> 100" using assms(1) by (simp add: abs_mult)
  have "\<bar>n * 100\<bar> * \<bar>dt\<bar> \<le> 100 * 1000000000000000000"
    using a assms(2) by (intro mult_mono) simp_all
  then have b: "\<bar>n * 100 * dt\<bar> \<le> 100000000000000000000"
    by (simp add: abs_mult)
  have c: "\<bar>x + n * 100 * dt\<bar> \<le> 101000000000000000000"
    using b assms(3) by linarith
  have "\<bar>v\<bar> \<le> FLT_MAX" if "\<bar>v\<bar> \<le> 101000000000000000000" for v :: real
    using that by (simp add: FLT_MAX_def)
  then show ?thesis
    unfolding finite_float_def list.pred_inject using assms(1) a b c by simp
qed

text \<open>
  C6 (amended). In no case does the chase divide by zero. With the player and the
  enemy found and their Transforms \<open>pt\<close> and \<open>et\<close>, let \<open>dx\<close>, \<open>dy\<close> be
  the offsets between the centres and \<open>dd\<close> their distance (\<^verbatim>\<open>dist\<close> in the
  source). When the coordinates and sizes of the two Transforms and the frame time
  are of magnitude at most \<open>10^18\<close>, no operation of the chase leaves the
  float range: no infinity and no NaN is produced. Whenever none leaves the range:
  if \<open>dd\<close> is at most 0.001 the chase leaves the whole session unchanged;
  otherwise \<open>dd\<close> is not zero, both divisions are defined, and the enemy's
  position moves by \<open>100 * dt\<close> times the unit vector \<open>(dx / dd, dy / dd)\<close>,
  its size unchanged.
\<close>

theorem chase_guards_division:
  "chase dt r ed \<noteq> Inl FloatDivByZero \<and>
   (player r = Some p \<and> enemy r = Some e \<and>
    transform_at ed p = Some pt \<and> transform_at ed e = Some et \<and>
    dx = (t_x pt + t_w pt / 2) - (t_x et + t_w et / 2) \<and>
    dy = (t_y pt + t_h pt / 2) - (t_y et + t_h et / 2) \<and>
    dd = sqrt (dx * dx + dy * dy) \<longrightarrow>
      (\<bar>t_x pt\<bar> \<le> 1000000000000000000 \<and> \<bar>t_y pt\<bar> \<le> 1000000000000000000 \<and>
       \<bar>t_w pt\<bar> \<le> 1000000000000000000 \<and> \<bar>t_h pt\<bar> \<le> 1000000000000000000 \<and>
       \<bar>t_x et\<bar> \<le> 1000000000000000000 \<and> \<bar>t_y et\<bar> \<le> 1000000000000000000 \<and>
       \<bar>t_w et\<bar> \<le> 1000000000000000000 \<and> \<bar>t_h et\<bar> \<le> 1000000000000000000 \<and>
       \<bar>dt\<bar> \<le> 1000000000000000000 \<longrightarrow> chase dt r ed \<noteq> Inl FloatOverflow) \<and>
      (chase dt r ed \<noteq> Inl FloatOverflow \<longrightarrow>
         (dd \<le> 1 / 1000 \<longrightarrow> chase dt r ed = Inr ed) \<and>
         (1 / 1000 < dd \<longrightarrow>
            dd \<noteq> 0 \<and>
            (dx / dd) * (dx / dd) + (dy / dd) * (dy / dd) = 1 \<and>
            chase dt r ed =
              Inr (set_transform_at e
                     (et\<lparr>t_x := t_x et + (dx / dd) * 100 * dt,
                         t_y := t_y et + (dy / dd) * 100 * dt\<rparr>) ed) \<and>
            transform_at
              (set_transform_at e
                     (et\<lparr>t_x := t_x et + (dx / dd) * 100 * dt,
                         t_y := t_y et + (dy / dd) * 100 * dt\<rparr>) ed) e =
              Some (et\<lparr>t_x := t_x et + (dx / dd) * 100 * dt,
                        t_y := t_y et + (dy / dd) * 100 * dt\<rparr>))))"
proof (intro conjI impI; (elim conjE)?)
  show "chase dt r ed \<noteq> Inl FloatDivByZero"
    by (auto simp: chase_def fdiv_def fl_def Let_def split: option.splits prod.splits)
next
  assume h: "player r = Some p" "enemy r = Some e"
    "transform_at ed p = Some pt" "transform_at ed e = Some et"
    and dx: "dx = (t_x pt + t_w pt / 2) - (t_x et + t_w et / 2)"
    and dy: "dy = (t_y pt + t_h pt / 2) - (t_y et + t_h et / 2)"
    and dd: "dd = sqrt (dx * dx + dy * dy)"
    and b: "\<bar>t_x pt\<bar> \<le> 1000000000000000000" "\<bar>t_y pt\<bar> \<le> 1000000000000000000"
       "\<bar>t_w pt\<bar> \<le> 1000000000000000000" "\<bar>t_h pt\<bar> \<le> 1000000000000000000"
       "\<bar>t_x et\<bar> \<le> 1000000000000000000" "\<bar>t_y et\<bar> \<le> 1000000000000000000"
       "\<bar>t_w et\<bar> \<le> 1000000000000000000" "\<bar>t_h et\<bar> \<le> 1000000000000000000"
       "\<bar>dt\<bar> \<le> 1000000000000000000"
  note first = chase_in_range [OF b(1,3,5,7,2,4,6,8)]
  show "chase dt r ed \<noteq> Inl FloatOverflow"
  proof (cases "1 / 1000 < dd")
    case False
    then show ?thesis
      using h first by (simp add: chase_def Let_def dx dy dd)
  next
    case True
    then have pos: "0 < dd" by simp
    have nx: "\<bar>dx / dd\<bar> \<le> 1" and ny: "\<bar>dy / dd\<bar> \<le> 1"
      using abs_le_sqrt_sum [of dx dy] abs_le_sqrt_sum2 [of dy dx] pos
      by (simp_all only: dd [symmetric] unit_component)
    note X = step_in_range [OF nx b(9) b(5)] and Y = step_in_range [OF ny b(9) b(6)]
    have "fdiv dx dd = Inr (dx / dd)" "fdiv dy dd = Inr (dy / dd)"
      using pos X Y by (simp_all add: fdiv_def fl_def)
    then show ?thesis
      using h first True X Y
      by (simp add: chase_def Let_def dx [symmetric] dy [symmetric] dd [symmetric])
  qed
next
  assume h: "player r = Some p" "enemy r = Some e"
    "transform_at ed p = Some pt" "transform_at ed e = Some et"
    and dx: "dx = (t_x pt + t_w pt / 2) - (t_x et + t_w et / 2)"
    and dy: "dy = (t_y pt + t_h pt / 2) - (t_y et + t_h et / 2)"
    and dd: "dd = sqrt (dx * dx + dy * dy)"
    and ok: "chase dt r ed \<noteq> Inl FloatOverflow"
    and small: "dd \<le> 1 / 1000"
  show "chase dt r ed = Inr ed"
    using h ok small
    by (simp add: chase_def Let_def dx [symmetric] dy [symmetric] dd [symmetric] split: if_splits)
next
  assume "1 / 1000 < dd" then show "dd \<noteq> 0" by simp
next
  assume "dd = sqrt (dx * dx + dy * dy)" "1 / 1000 < dd"
  then show "(dx / dd) * (dx / dd) + (dy / dd) * (dy / dd) = 1"
    using sqrt_sum_squares_pos [of dx dy] by simp
next
  assume h: "player r = Some p" "enemy r = Some e"
    "transform_at ed p = Some pt" "transform_at ed e = Some et"
    and dx: "dx = (t_x pt + t_w pt / 2) - (t_x et + t_w et / 2)"
    and dy: "dy = (t_y pt + t_h pt / 2) - (t_y et + t_h et / 2)"
    and dd: "dd = sqrt (dx * dx + dy * dy)"
    and ok: "chase dt r ed \<noteq> Inl FloatOverflow"
    and far: "1 / 1000 < dd"
  show "chase dt r ed =
              Inr (set_transform_at e
                     (et\<lparr>t_x := t_x et + (dx / dd) * 100 * dt,
                         t_y := t_y et + (dy / dd) * 100 * dt\<rparr>) ed)"
    using h ok far
    by (simp add: chase_def Let_def fdiv_def fl_def dx [symmetric] dy [symmetric] dd [symmetric]
          split: if_splits)
next
  assume "transform_at ed e = Some et"
  then show "transform_at
              (set_transform_at e
                     (et\<lparr>t_x := t_x et + (dx / dd) * 100 * dt,
                         t_y := t_y et + (dy / dd) * 100 * dt\<rparr>) ed) e =
              Some (et\<lparr>t_x := t_x et + (dx / dd) * 100 * dt,
                        t_y := t_y et + (dy / dd) * 100 * dt\<rparr>)"
    by (simp add: transform_at_set_transform_at)
qed

lemma sqrt_25: "sqrt 25 = 5"
  by (rule real_sqrt_unique) simp_all

theorem chase_guards_division_witness:
  "chase (1 / 20) \<lparr>player = Some 0, enemy = Some 2, target = Some 1\<rparr>
     (demo_editor True 0 [demo_player None 0 0 0 0, demo_target None 1000 500, demo_enemy None 5 4])
     = Inr (demo_editor True 0
              [demo_player None 0 0 0 0, demo_target None 1000 500, demo_enemy None 8 8]) \<and>
   chase (1 / 20) \<lparr>player = Some 0, enemy = Some 2, target = Some 1\<rparr>
     (demo_editor True 0 [demo_player None 0 0 0 0, demo_target None 1000 500, demo_enemy None 8 8])
     = Inr (demo_editor True 0
              [demo_player None 0 0 0 0, demo_target None 1000 500, demo_enemy None 8 8])"
  using chase_guards_division
    [where dt = "1 / 20" and r = "\<lparr>player = Some 0, enemy = Some 2, target = Some 1\<rparr>"
       and ed = "demo_editor True 0
                   [demo_player None 0 0 0 0, demo_target None 1000 500, demo_enemy None 5 4]"
       and p = 0 and e = 2
       and pt = "\<lparr>t_owner = 1, t_x = 0, t_y = 0, t_w = 64, t_h = 64, t_angle = 0\<rparr>"
       and et = "\<lparr>t_owner = 3, t_x = 5, t_y = 4, t_w = 48, t_h = 48, t_angle = 0\<rparr>"
       and dx = 3 and dy = 4 and dd = 5]
    chase_guards_division
    [where dt = "1 / 20" and r = "\<lparr>player = Some 0, enemy = Some 2, target = Some 1\<rparr>"
       and ed = "demo_editor True 0
                   [demo_player None 0 0 0 0, demo_target None 1000 500, demo_enemy None 8 8]"
       and p = 0 and e = 2
       and pt = "\<lparr>t_owner = 1, t_x = 0, t_y = 0, t_w = 64, t_h = 64, t_angle = 0\<rparr>"
       and et = "\<lparr>t_owner = 3, t_x = 8, t_y = 8, t_w = 48, t_h = 48, t_angle = 0\<rparr>"
       and dx = 0 and dy = 0 and dd = 0]
  by (simp add: editor_defs comp_defs transform_at_def set_transform_at_def modify_def sqrt_25)

text \<open>
  C6 as stated fails: the guard keeps the divisor away from zero, not the
  operands within the float range. The demo scene with the enemy dragged to
  \<open>x = -3 * 10^38\<close> in the inspector (a float): in the next step while playing
  the offset \<open>dx\<close> is about \<open>3 * 10^38\<close> and its square is out of range, so
  \<^verbatim>\<open>dist\<close> is an infinity, the guard passes, and \<^verbatim>\<open>dx/dist\<close> is 0: an
  infinity is produced and the enemy, far from the player, does not move. With the
  player at \<open>x = 3 * 10^38\<close> as well (for the chase alone), \<open>dx\<close> itself is out
  of range and \<^verbatim>\<open>dx/dist\<close> is \<^verbatim>\<open>inf/inf\<close>, a NaN that is stored in the
  enemy's position.
\<close>

theorem chase_overflows_far_apart:
  "finite_float 300000000000000000000000000000000000000 \<and>
   finite_float (- 300000000000000000000000000000000000000) \<and>
   update (1 / 60) 0 0
     (demo_editor True 0
        [demo_player None 608 328 0 0,
         demo_target None 1000 500,
         demo_enemy None (- 300000000000000000000000000000000000000) 336])
     = Inl FloatOverflow \<and>
   chase (1 / 60) \<lparr>player = Some 0, enemy = Some 2, target = Some 1\<rparr>
     (demo_editor True 0
        [demo_player None 300000000000000000000000000000000000000 328 0 0,
         demo_target None 1000 500,
         demo_enemy None (- 300000000000000000000000000000000000000) 336])
     = Inl FloatOverflow"
  by (simp add: step_defs editor_defs comp_defs)

section \<open>Pickup\<close>

lemma to_int_le:
  "f \<le> of_int n \<Longrightarrow> to_int f \<le> n"
  by (auto simp: to_int_def floor_le_iff ceiling_le_iff)

lemma to_int_frac:
  "f - of_int (to_int f) < 1"
  unfolding to_int_def by (auto; linarith)

lemma to_int_less_le:
  assumes "to_int f < n"
  shows "f \<le> of_int n"
proof -
  have "to_int f + 1 \<le> n" using assms by simp
  then have "of_int (to_int f) + (1::real) \<le> of_int n"
    by (metis of_int_add of_int_le_iff of_int_1)
  with to_int_frac [of f] show ?thesis by simp
qed

lemma c_rem_in_range:
  assumes "c_rem a (n - to_int f) = Inr m" and "0 \<le> a" and "f \<le> of_int n"
  shows "0 \<le> m \<and> of_int m + f \<le> of_int n"
proof -
  have pos: "0 < n - to_int f"
    using assms(1) to_int_le [OF assms(3)] by (auto simp: c_rem_def split: if_splits)
  then have m: "m = a mod (n - to_int f)"
    using assms(1,2) by (auto simp: c_rem_def split: if_splits)
  have "0 \<le> m" and "m < n - to_int f"
    using pos by (simp_all add: m)
  then have "0 \<le> m" and "m + to_int f + 1 \<le> n" by simp_all
  then have "of_int m + of_int (to_int f) + (1::real) \<le> of_int n"
    by (metis of_int_add of_int_le_iff of_int_1)
  with to_int_frac [of f] \<open>0 \<le> m\<close> show ?thesis by simp
qed

lemma c_rem_defined:
  assumes "0 \<le> a" and "to_int f < n"
  shows "c_rem a (n - to_int f) = Inr (a mod (n - to_int f))"
  using assms by (simp add: c_rem_def)

text \<open>
  The pickup check on its own, when the player and the target are found and
  their rectangles intersect.
\<close>

lemma pickup_hit:
  assumes "player r = Some p" and "target r = Some t"
    and "transform_at ed p = Some pt" and "transform_at ed t = Some tt"
    and "aabbIntersect pt tt"
    and "score ed < INT_MAX"
    and "0 \<le> r1" and "0 \<le> r2"
    and "to_int (t_w tt) < width (cfg ed)" and "to_int (t_h tt) < height (cfg ed)"
  shows "\<exists>ed' tt'.
           pickup r1 r2 r ed = Inr ed' \<and>
           score ed' = score ed + 1 \<and>
           transform_at ed' t = Some tt' \<and>
           t_x tt' = of_int (r1 mod (width (cfg ed) - to_int (t_w tt))) \<and>
           t_y tt' = of_int (r2 mod (height (cfg ed) - to_int (t_h tt))) \<and>
           t_w tt' = t_w tt \<and> t_h tt' = t_h tt \<and>
           0 \<le> t_x tt' \<and> t_x tt' \<le> of_int (width (cfg ed)) - t_w tt \<and>
           0 \<le> t_y tt' \<and> t_y tt' \<le> of_int (height (cfg ed)) - t_h tt \<and>
           in_bounds (cfg ed) tt' \<and>
           (\<forall>i. i \<noteq> t \<longrightarrow> transform_at ed' i = transform_at ed i) \<and>
           cfg ed' = cfg ed \<and> playing ed' = playing ed \<and> selected ed' = selected ed"
proof -
  let ?nx = "r1 mod (width (cfg ed) - to_int (t_w tt))"
  let ?ny = "r2 mod (height (cfg ed) - to_int (t_h tt))"
  have nx: "c_rem r1 (width (cfg ed) - to_int (t_w tt)) = Inr ?nx"
    and ny: "c_rem r2 (height (cfg ed) - to_int (t_h tt)) = Inr ?ny"
    using assms by (simp_all add: c_rem_defined)
  have w: "t_w tt \<le> of_int (width (cfg ed))" and h: "t_h tt \<le> of_int (height (cfg ed))"
    using assms(9,10) by (simp_all add: to_int_less_le)
  have bx: "0 \<le> ?nx \<and> of_int ?nx + t_w tt \<le> of_int (width (cfg ed))"
    using c_rem_in_range [OF nx \<open>0 \<le> r1\<close> w] .
  have by': "0 \<le> ?ny \<and> of_int ?ny + t_h tt \<le> of_int (height (cfg ed))"
    using c_rem_in_range [OF ny \<open>0 \<le> r2\<close> h] .
  have "pickup r1 r2 r ed =
          Inr ((set_transform_at t (tt\<lparr>t_x := of_int ?nx, t_y := of_int ?ny\<rparr>) ed)
                 \<lparr>score := score ed + 1\<rparr>)"
    using assms nx ny by (simp add: pickup_def)
  then show ?thesis
    using bx by' assms(4)
    by (simp add: transform_at_set_transform_at set_transform_at_fields
          transform_at_score_update in_bounds_def)
qed






section \<open>Roles\<close>

lemma nth_shift:
  assumes "j < length rest" and "p = Suc i + j" and "getTransform (rest ! j) = Some tr" and "P tr"
  shows "\<exists>j tr. j < length (ent # rest) \<and> p = i + j \<and>
           getTransform ((ent # rest) ! j) = Some tr \<and> P tr"
proof (intro exI conjI)
  show "Suc j < length (ent # rest)" using assms(1) by simp
  show "p = i + Suc j" using assms(2) by simp
  show "getTransform ((ent # rest) ! Suc j) = Some tr" using assms(3) by simp
  show "P tr" by fact
qed

lemma nth_here:
  assumes "getTransform ent = Some tr" and "P tr"
  shows "\<exists>j tr. j < length (ent # rest) \<and> i = i + j \<and>
           getTransform ((ent # rest) ! j) = Some tr \<and> P tr"
proof (intro exI conjI)
  show "0 < length (ent # rest)" by simp
  show "i = i + 0" by simp
  show "getTransform ((ent # rest) ! 0) = Some tr" using assms(1) by simp
  show "P tr" by fact
qed

lemma find_roles_step:
  assumes "find_roles (ent # rest) i r0 = Inr r"
  shows "(getSprite ent = None \<and> find_roles rest (Suc i) r0 = Inr r) \<or>
         (\<exists>tr. getSprite ent \<noteq> None \<and> getTransform ent = Some tr \<and>
            find_roles rest (Suc i)
              (if 48 < t_w tr then r0\<lparr>player := Some i\<rparr>
               else if 40 < t_w tr then r0\<lparr>enemy := Some i\<rparr>
               else r0\<lparr>target := Some i\<rparr>) = Inr r)"
  using assms by (cases "getSprite ent"; cases "getTransform ent") simp_all

lemma find_roles_player_sound:
  assumes "find_roles es i r0 = Inr r" and "player r = Some p"
  shows "player r0 = Some p \<or>
          (\<exists>j tr. j < length es \<and> p = i + j \<and> getTransform (es ! j) = Some tr \<and> 48 < t_w tr)"
  using assms
proof (induction es arbitrary: i r0)
  case Nil
  then show ?case by simp
next
  case (Cons ent rest)
  from find_roles_step [OF Cons.prems(1)] show ?case
  proof (elim disjE conjE exE)
    assume "find_roles rest (Suc i) r0 = Inr r"
    from Cons.IH [OF this Cons.prems(2)] show ?thesis
      using nth_shift [where P = "\<lambda>tr. 48 < t_w tr"] by blast
  next
    fix tr
    assume tr: "getTransform ent = Some tr"
      and rec: "find_roles rest (Suc i)
              (if 48 < t_w tr then r0\<lparr>player := Some i\<rparr>
               else if 40 < t_w tr then r0\<lparr>enemy := Some i\<rparr>
               else r0\<lparr>target := Some i\<rparr>) = Inr r"
    from Cons.IH [OF rec Cons.prems(2)]
    consider (old) "player r0 = Some p"
      | (new) "48 < t_w tr" "p = i"
      | (later) j tr' where "j < length rest" "p = Suc i + j"
          "getTransform (rest ! j) = Some tr'" "48 < t_w tr'"
      by (auto split: if_splits)
    then show ?thesis
    proof cases
      case old
      then show ?thesis by simp
    next
      case new
      with nth_here [OF tr, where P = "\<lambda>tr. 48 < t_w tr"] show ?thesis by blast
    next
      case later
      with nth_shift [where P = "\<lambda>tr. 48 < t_w tr"] show ?thesis by blast
    qed
  qed
qed

lemma find_roles_enemy_sound:
  assumes "find_roles es i r0 = Inr r" and "enemy r = Some p"
  shows "enemy r0 = Some p \<or>
          (\<exists>j tr. j < length es \<and> p = i + j \<and> getTransform (es ! j) = Some tr \<and> \<not> 48 < t_w tr \<and> 40 < t_w tr)"
  using assms
proof (induction es arbitrary: i r0)
  case Nil
  then show ?case by simp
next
  case (Cons ent rest)
  from find_roles_step [OF Cons.prems(1)] show ?case
  proof (elim disjE conjE exE)
    assume "find_roles rest (Suc i) r0 = Inr r"
    from Cons.IH [OF this Cons.prems(2)] show ?thesis
      using nth_shift [where P = "\<lambda>tr. \<not> 48 < t_w tr \<and> 40 < t_w tr"] by blast
  next
    fix tr
    assume tr: "getTransform ent = Some tr"
      and rec: "find_roles rest (Suc i)
              (if 48 < t_w tr then r0\<lparr>player := Some i\<rparr>
               else if 40 < t_w tr then r0\<lparr>enemy := Some i\<rparr>
               else r0\<lparr>target := Some i\<rparr>) = Inr r"
    from Cons.IH [OF rec Cons.prems(2)]
    consider (old) "enemy r0 = Some p"
      | (new) "\<not> 48 < t_w tr \<and> 40 < t_w tr" "p = i"
      | (later) j tr' where "j < length rest" "p = Suc i + j"
          "getTransform (rest ! j) = Some tr'" "\<not> 48 < t_w tr' \<and> 40 < t_w tr'"
      by (auto split: if_splits)
    then show ?thesis
    proof cases
      case old
      then show ?thesis by simp
    next
      case new
      with nth_here [OF tr, where P = "\<lambda>tr. \<not> 48 < t_w tr \<and> 40 < t_w tr"] show ?thesis by blast
    next
      case later
      with nth_shift [where P = "\<lambda>tr. \<not> 48 < t_w tr \<and> 40 < t_w tr"] show ?thesis by blast
    qed
  qed
qed

lemma find_roles_target_sound:
  assumes "find_roles es i r0 = Inr r" and "target r = Some p"
  shows "target r0 = Some p \<or>
          (\<exists>j tr. j < length es \<and> p = i + j \<and> getTransform (es ! j) = Some tr \<and> \<not> 40 < t_w tr)"
  using assms
proof (induction es arbitrary: i r0)
  case Nil
  then show ?case by simp
next
  case (Cons ent rest)
  from find_roles_step [OF Cons.prems(1)] show ?case
  proof (elim disjE conjE exE)
    assume "find_roles rest (Suc i) r0 = Inr r"
    from Cons.IH [OF this Cons.prems(2)] show ?thesis
      using nth_shift [where P = "\<lambda>tr. \<not> 40 < t_w tr"] by blast
  next
    fix tr
    assume tr: "getTransform ent = Some tr"
      and rec: "find_roles rest (Suc i)
              (if 48 < t_w tr then r0\<lparr>player := Some i\<rparr>
               else if 40 < t_w tr then r0\<lparr>enemy := Some i\<rparr>
               else r0\<lparr>target := Some i\<rparr>) = Inr r"
    from Cons.IH [OF rec Cons.prems(2)]
    consider (old) "target r0 = Some p"
      | (new) "\<not> 40 < t_w tr" "p = i"
      | (later) j tr' where "j < length rest" "p = Suc i + j"
          "getTransform (rest ! j) = Some tr'" "\<not> 40 < t_w tr'"
      by (auto split: if_splits)
    then show ?thesis
    proof cases
      case old
      then show ?thesis by simp
    next
      case new
      with nth_here [OF tr, where P = "\<lambda>tr. \<not> 40 < t_w tr"] show ?thesis by blast
    next
      case later
      with nth_shift [where P = "\<lambda>tr. \<not> 40 < t_w tr"] show ?thesis by blast
    qed
  qed
qed


lemma find_roles_player:
  assumes "find_roles es 0 Roles0 = Inr r" and "player r = Some p"
  shows "p < length es \<and> (\<exists>tr. getTransform (es ! p) = Some tr \<and> 48 < t_w tr)"
  using find_roles_player_sound [OF assms] by (auto simp: Roles0_def)

lemma find_roles_enemy:
  assumes "find_roles es 0 Roles0 = Inr r" and "enemy r = Some p"
  shows "p < length es \<and> (\<exists>tr. getTransform (es ! p) = Some tr \<and> \<not> 48 < t_w tr \<and> 40 < t_w tr)"
  using find_roles_enemy_sound [OF assms] by (auto simp: Roles0_def)

lemma find_roles_target:
  assumes "find_roles es 0 Roles0 = Inr r" and "target r = Some p"
  shows "p < length es \<and> (\<exists>tr. getTransform (es ! p) = Some tr \<and> \<not> 40 < t_w tr)"
  using find_roles_target_sound [OF assms] by (auto simp: Roles0_def)

lemma find_roles_distinct:
  assumes "find_roles es 0 Roles0 = Inr r"
  shows "(player r = Some p \<longrightarrow> enemy r \<noteq> Some p \<and> target r \<noteq> Some p) \<and>
         (enemy r = Some p \<longrightarrow> target r \<noteq> Some p)"
  using find_roles_player [OF assms, of p] find_roles_enemy [OF assms, of p]
    find_roles_target [OF assms, of p]
  by auto

lemma chase_cfg:
  "chase dt r ed = Inr ed2 \<Longrightarrow> cfg ed2 = cfg ed"
  using chase_cases [of dt r ed ed2] by (auto simp: set_transform_at_fields)

lemma reset_on_catch_hit:
  assumes "player r = Some p" and "enemy r = Some e"
    and "transform_at ed p = Some pt" and "transform_at ed e = Some et"
    and "aabbIntersect pt et"
  shows "reset_on_catch r ed =
           Inr ((set_transform_at p
                   (pt\<lparr>t_x := of_int (c_half (width (cfg ed)) - 32),
                       t_y := of_int (c_half (height (cfg ed)) - 32)\<rparr>) ed)\<lparr>score := 0\<rparr>)"
  using assms by (simp add: reset_on_catch_def)

section \<open>Reset on catch\<close>

lemma chase_keeps_presence:
  assumes "chase dt r ed = Inr ed2"
  shows "transform_at ed2 i = None \<longleftrightarrow> transform_at ed i = None"
  using chase_cases [OF assms]
  by (auto simp: transform_at_set_transform_at split: option.splits if_splits)

lemma find_roles_target_at:
  assumes "find_roles (all_ents (world ed)) 0 Roles0 = Inr r" and "target r = Some t"
  shows "transform_at ed t \<noteq> None"
  using find_roles_target [OF assms] by (auto simp: transform_at_def all_ents_def)

lemma pickup_miss:
  assumes "player r = Some p" and "transform_at ed p = Some pt"
    and "\<forall>t tt. target r = Some t \<and> transform_at ed t = Some tt \<longrightarrow> \<not> aabbIntersect pt tt"
    and "\<forall>t. target r = Some t \<longrightarrow> transform_at ed t \<noteq> None"
  shows "pickup r1 r2 r ed = Inr ed"
  using assms by (auto simp: pickup_def split: option.splits)

text \<open>
  C3 (amended). Let a step run while playing, with the player and the enemy found,
  a chase that stayed within the float range, and the rectangles of the two
  intersecting when the step tests them (after integration and chase). The step
  completes. It puts the player's corner at \<open>(width/2 - 32, height/2 - 32)\<close>, in
  \<^verbatim>\<open>int\<close> arithmetic, and sets the score to 0 before the pickup check of the same
  step. If the player in its new place (\<open>c\<close>) intersects the target, the step ends with
  score 1 and the target moved to a place within the world, its size unchanged
  (given \<^verbatim>\<open>rand()\<close> not negative and a target whose truncated size is smaller
  than the window); otherwise it ends with score 0. Reset and pickup change no
  other Transform.
\<close>

theorem catch_resets_before_pickup:
  assumes play: "playing ed"
    and roles: "find_roles (all_ents (world (physics dt ed))) 0 Roles0 = Inr r"
    and p: "player r = Some p" and e: "enemy r = Some e"
    and ch: "chase dt r (physics dt ed) = Inr ed2"
    and pt: "transform_at ed2 p = Some pt" and et: "transform_at ed2 e = Some et"
    and hit: "aabbIntersect pt et"
    and c: "c = pt\<lparr>t_x := of_int (c_half (width (cfg ed)) - 32),
                     t_y := of_int (c_half (height (cfg ed)) - 32)\<rparr>"
    and rand: "0 \<le> r1" "0 \<le> r2"
    and small: "\<forall>t tt. target r = Some t \<and> transform_at ed2 t = Some tt \<and> aabbIntersect c tt \<longrightarrow>
                 to_int (t_w tt) < width (cfg ed) \<and> to_int (t_h tt) < height (cfg ed)"
  shows "\<exists>ed'. update dt r1 r2 ed = Inr ed' \<and>
           transform_at ed' p = Some c \<and>
           (if \<exists>t tt. target r = Some t \<and> transform_at ed2 t = Some tt \<and> aabbIntersect c tt
            then score ed' = 1 \<and>
                 (\<exists>t tt tt'. target r = Some t \<and> t \<noteq> p \<and> transform_at ed2 t = Some tt \<and>
                    transform_at ed' t = Some tt' \<and> t_w tt' = t_w tt \<and> t_h tt' = t_h tt \<and>
                    in_bounds (cfg ed) tt' \<and>
                    (\<forall>i. i \<noteq> p \<and> i \<noteq> t \<longrightarrow> transform_at ed' i = transform_at ed2 i))
            else score ed' = 0 \<and> (\<forall>i. i \<noteq> p \<longrightarrow> transform_at ed' i = transform_at ed2 i))"
proof -
  define ed3 where "ed3 = (set_transform_at p c ed2)\<lparr>score := 0\<rparr>"
  have c2: "cfg ed2 = cfg ed"
    using chase_cfg [OF ch] by (simp add: physics_fields)
  have rs: "reset_on_catch r ed2 = Inr ed3"
    using reset_on_catch_hit [OF p e pt et hit] by (simp add: ed3_def c2 c)
  have upd: "update dt r1 r2 ed = pickup r1 r2 r ed3"
    using play roles ch rs by (simp add: update_def Let_def)
  have t3: "transform_at ed3 i = (if i = p then Some c else transform_at ed2 i)" for i
    using pt by (simp add: ed3_def transform_at_score_update transform_at_set_transform_at)
  have c3: "cfg ed3 = cfg ed" and s3: "score ed3 = 0"
    by (simp_all add: ed3_def set_transform_at_fields c2)
  have tp: "t \<noteq> p" if "target r = Some t" for t
    using find_roles_distinct [OF roles, of p] p that by auto
  have present: "transform_at ed2 t \<noteq> None" if "target r = Some t" for t
    using find_roles_target_at [OF roles that] chase_keeps_presence [OF ch, of t] by simp
  show ?thesis
  proof (cases "\<exists>t tt. target r = Some t \<and> transform_at ed2 t = Some tt \<and> aabbIntersect c tt")
    case False
    have "pickup r1 r2 r ed3 = Inr ed3"
    proof (rule pickup_miss [OF p])
      show "transform_at ed3 p = Some c" by (simp add: t3)
      show "\<forall>t tt. target r = Some t \<and> transform_at ed3 t = Some tt \<longrightarrow> \<not> aabbIntersect c tt"
        using False tp by (auto simp: t3)
      show "\<forall>t. target r = Some t \<longrightarrow> transform_at ed3 t \<noteq> None"
        using present tp by (auto simp: t3)
    qed
    with upd False show ?thesis by (simp add: t3 s3)
  next
    case True
    then obtain t tt where t: "target r = Some t" and tt2: "transform_at ed2 t = Some tt"
      and hit2: "aabbIntersect c tt"
      by blast
    have sm: "to_int (t_w tt) < width (cfg ed3)" "to_int (t_h tt) < height (cfg ed3)"
      using small t tt2 hit2 unfolding c3 by blast+
    have p3: "transform_at ed3 p = Some c" by (simp add: t3)
    have tt3: "transform_at ed3 t = Some tt" using tt2 tp [OF t] by (simp add: t3)
    have sc: "score ed3 < INT_MAX" by (simp add: s3 INT_MAX_def)
    from pickup_hit [OF p t p3 tt3 hit2 sc rand sm]
    obtain ed' tt' where pk: "pickup r1 r2 r ed3 = Inr ed'"
      and s': "score ed' = score ed3 + 1"
      and t': "transform_at ed' t = Some tt'" "t_w tt' = t_w tt" "t_h tt' = t_h tt"
      and b': "in_bounds (cfg ed3) tt'"
      and others: "\<forall>i. i \<noteq> t \<longrightarrow> transform_at ed' i = transform_at ed3 i"
      by blast
    have "transform_at ed' p = Some c"
      using others tp [OF t] p3 by auto
    moreover have "score ed' = 1" using s' s3 by simp
    moreover have "\<forall>i. i \<noteq> p \<and> i \<noteq> t \<longrightarrow> transform_at ed' i = transform_at ed2 i"
      using others by (simp add: t3)
    ultimately show ?thesis
      using upd pk True t tp [OF t] tt2 t' b' unfolding c3 by auto
  qed
qed

theorem catch_resets_before_pickup_witness:
  "(\<exists>ed'. update (1 / 60) 5 7 (demo_editor True 4
       [demo_player None 100 100 0 0, demo_target None 1000 500, demo_enemy None 108 108]) = Inr ed' \<and>
     transform_at ed' 0 = Some \<lparr>t_owner = 1, t_x = 608, t_y = 328, t_w = 64, t_h = 64, t_angle = 0\<rparr> \<and>
     score ed' = 0) \<and>
   (\<exists>ed'. update (1 / 60) 5 7 (demo_editor True 4
       [demo_player None 100 100 0 0, demo_target None 608 328, demo_enemy None 108 108]) = Inr ed' \<and>
     transform_at ed' 0 = Some \<lparr>t_owner = 1, t_x = 608, t_y = 328, t_w = 64, t_h = 64, t_angle = 0\<rparr> \<and>
     score ed' = 1)"
  using catch_resets_before_pickup
    [where ed = "demo_editor True 4
       [demo_player None 100 100 0 0, demo_target None 1000 500, demo_enemy None 108 108]"
       and dt = "1 / 60" and ?r1.0 = 5 and ?r2.0 = 7
       and r = "\<lparr>player = Some 0, enemy = Some 2, target = Some 1\<rparr>"
       and p = 0 and e = 2
       and ?ed2.0 = "demo_editor True 4
       [demo_player None 100 100 0 0, demo_target None 1000 500, demo_enemy None 108 108]"
       and pt = "\<lparr>t_owner = 1, t_x = 100, t_y = 100, t_w = 64, t_h = 64, t_angle = 0\<rparr>"
       and et = "\<lparr>t_owner = 3, t_x = 108, t_y = 108, t_w = 48, t_h = 48, t_angle = 0\<rparr>"
       and c = "\<lparr>t_owner = 1, t_x = 608, t_y = 328, t_w = 64, t_h = 64, t_angle = 0\<rparr>"]
    catch_resets_before_pickup
    [where ed = "demo_editor True 4
       [demo_player None 100 100 0 0, demo_target None 608 328, demo_enemy None 108 108]"
       and dt = "1 / 60" and ?r1.0 = 5 and ?r2.0 = 7
       and r = "\<lparr>player = Some 0, enemy = Some 2, target = Some 1\<rparr>"
       and p = 0 and e = 2
       and ?ed2.0 = "demo_editor True 4
       [demo_player None 100 100 0 0, demo_target None 608 328, demo_enemy None 108 108]"
       and pt = "\<lparr>t_owner = 1, t_x = 100, t_y = 100, t_w = 64, t_h = 64, t_angle = 0\<rparr>"
       and et = "\<lparr>t_owner = 3, t_x = 108, t_y = 108, t_w = 48, t_h = 48, t_angle = 0\<rparr>"
       and c = "\<lparr>t_owner = 1, t_x = 608, t_y = 328, t_w = 64, t_h = 64, t_angle = 0\<rparr>"]
  by (simp add: step_defs editor_defs comp_defs)

lemma caught_spawn:
  "spawnDemoScene 0 1 2 608 328 616 336 editor_init =
     Inr (demo_editor False 0
       [demo_player None 608 328 0 0, demo_target None 608 328, demo_enemy None 616 336])"
  by (simp add: spawn_defs editor_defs comp_defs)

lemma caught_play:
  "press_play_pause (demo_editor False 0
       [demo_player None 608 328 0 0, demo_target None 608 328, demo_enemy None 616 336]) =
     demo_editor True 0
       [demo_player None 608 328 0 0, demo_target None 608 328, demo_enemy None 616 336]"
  by (simp add: press_play_pause_def editor_defs)

lemma caught_chase:
  "chase (1 / 60) \<lparr>player = Some 0, enemy = Some 2, target = Some 1\<rparr>
     (physics (1 / 60) (demo_editor True sc
       [demo_player None 608 328 0 0, demo_target None qx qy, demo_enemy None 616 336])) =
     Inr (demo_editor True sc
       [demo_player None 608 328 0 0, demo_target None qx qy, demo_enemy None 616 336])"
  by (simp add: step_defs editor_defs comp_defs)

lemma caught_update:
  "update (1 / 60) 5 7 (demo_editor True 0
       [demo_player None 608 328 0 0, demo_target None 608 328, demo_enemy None 616 336]) =
     Inr (demo_editor True 1
       [demo_player None 608 328 0 0, demo_target None 5 7, demo_enemy None 616 336])"
  by (simp add: step_defs editor_defs comp_defs)

lemma caught_tall:
  "update (1 / 60) 5 7 (demo_editor True 4
       [demo_player None 100 100 0 0, tall_target 608 0 720, demo_enemy None 108 108]) =
     Inl DivByZero"
  by (simp add: step_defs editor_defs comp_defs)

text \<open>
  C3 as stated fails: the demo scene spawned with the target on the world centre
  and the enemy centred on the player. In the first step while playing the player
  and the enemy intersect, the score is set to 0, and the pickup check of the same
  step finds the player on the target: the step ends with score 1. And with a
  target as high as the world under the world centre, the pickup check that
  follows the reset divides by zero: the step does not complete.
\<close>

theorem catch_step_ends_with_score_one:
  "spawnDemoScene 0 1 2 608 328 616 336 editor_init =
     Inr (demo_editor False 0
       [demo_player None 608 328 0 0, demo_target None 608 328, demo_enemy None 616 336]) \<and>
   press_play_pause (demo_editor False 0
       [demo_player None 608 328 0 0, demo_target None 608 328, demo_enemy None 616 336]) =
     demo_editor True 0
       [demo_player None 608 328 0 0, demo_target None 608 328, demo_enemy None 616 336] \<and>
   chase (1 / 60) \<lparr>player = Some 0, enemy = Some 2, target = Some 1\<rparr>
     (physics (1 / 60) (demo_editor True 0
       [demo_player None 608 328 0 0, demo_target None 608 328, demo_enemy None 616 336])) =
     Inr (demo_editor True 0
       [demo_player None 608 328 0 0, demo_target None 608 328, demo_enemy None 616 336]) \<and>
   aabbIntersect \<lparr>t_owner = 1, t_x = 608, t_y = 328, t_w = 64, t_h = 64, t_angle = 0\<rparr>
                 \<lparr>t_owner = 3, t_x = 616, t_y = 336, t_w = 48, t_h = 48, t_angle = 0\<rparr> \<and>
   update (1 / 60) 5 7 (demo_editor True 0
       [demo_player None 608 328 0 0, demo_target None 608 328, demo_enemy None 616 336]) =
     Inr (demo_editor True 1
       [demo_player None 608 328 0 0, demo_target None 5 7, demo_enemy None 616 336]) \<and>
   score (demo_editor True 1
       [demo_player None 608 328 0 0, demo_target None 5 7, demo_enemy None 616 336]) = 1 \<and>
   update (1 / 60) 5 7 (demo_editor True 4
       [demo_player None 100 100 0 0, tall_target 608 0 720, demo_enemy None 108 108]) =
     Inl DivByZero"
  by (intro conjI caught_spawn caught_play caught_chase caught_update caught_tall)
     (simp_all add: aabbIntersect_def demo_editor_def)

section \<open>The world bounds over runs\<close>

lemma world_in_bounds_iff:
  "world_in_bounds ed \<longleftrightarrow> (\<forall>i t. transform_at ed i = Some t \<longrightarrow> in_bounds (cfg ed) t)"
  by (auto simp: world_in_bounds_def entity_in_bounds_def list_all_length transform_at_def
        split: option.splits)

lemma others_in_bounds_iff:
  "others_in_bounds ed \<longleftrightarrow>
     (\<forall>i t. transform_at ed i = Some t \<and> chased ed \<noteq> Some i \<longrightarrow> in_bounds (cfg ed) t)"
  by (auto simp: others_in_bounds_def entity_in_bounds_def list_all_iff transform_at_def
        split: option.splits)

lemma getSprite_setVelocity:
  "getSprite (setVelocity e v) = getSprite e"
  by (simp add: getSprite_def setVelocity_def getComponent_def find_put_first_other)

lemma shape_setTransform:
  assumes "getTransform ent = Some old" and "t_w t = t_w old" and "t_h t = t_h old"
  shows "shape (setTransform ent t) = shape ent"
  using assms by (simp add: shape_def getSprite_setTransform getTransform_setTransform)

lemma shape_setVelocity:
  "shape (setVelocity ent v) = shape ent"
  by (simp add: shape_def getSprite_setVelocity getTransform_setVelocity)

lemma shape_integrate:
  "shape (integrate c dt ent) = shape ent"
  by (auto simp: integrate_def Let_def shape_setTransform split: option.splits)

lemma shapes_physics:
  "map shape (ents (world (physics dt ed))) = map shape (ents (world ed))"
  by (simp add: physics_def all_ents_def shape_integrate)

lemma shapes_set_transform_at:
  assumes "transform_at ed j = Some old" and "t_w t = t_w old" and "t_h t = t_h old"
  shows "map shape (ents (world (set_transform_at j t ed))) = map shape (ents (world ed))"
proof -
  from assms(1) have j: "j < length (ents (world ed))"
    and g: "getTransform (ents (world ed) ! j) = Some old"
    by (simp_all add: transform_at_def split: if_splits)
  have "shape (setTransform (ents (world ed) ! j) t) = map shape (ents (world ed)) ! j"
    using shape_setTransform [OF g assms(2,3)] j by simp
  then show ?thesis
    by (simp add: set_transform_at_def modify_def map_update)
qed

lemma same_size:
  assumes "map_option (\<lambda>t. (t_w t, t_h t)) a = map_option (\<lambda>t. (t_w t, t_h t)) b"
  shows "(a = None \<longleftrightarrow> b = None) \<and>
         (\<forall>t. a = Some t \<longrightarrow> (\<exists>t0. b = Some t0 \<and> t_w t = t_w t0 \<and> t_h t = t_h t0))"
  using assms by (cases a; cases b) simp_all

lemma find_roles_shape:
  "map shape es = map shape es' \<Longrightarrow> find_roles es i r = find_roles es' i r"
proof (induction es arbitrary: es' i r)
  case Nil
  then show ?case by simp
next
  case (Cons ent rest)
  then obtain ent' rest' where es': "es' = ent' # rest'"
    and sh: "shape ent = shape ent'" and rest: "map shape rest = map shape rest'"
    by (cases es') auto
  have sp: "getSprite ent = None \<longleftrightarrow> getSprite ent' = None"
    using sh by (cases "getSprite ent"; cases "getSprite ent'") (simp_all add: shape_def)
  have "map_option (\<lambda>t. (t_w t, t_h t)) (getTransform ent) =
        map_option (\<lambda>t. (t_w t, t_h t)) (getTransform ent')"
    using sh by (simp add: shape_def)
  note tr = same_size [OF this]
  show ?case
    using sp tr Cons.IH [OF rest]
    by (cases "getSprite ent"; cases "getSprite ent'"; cases "getTransform ent";
        cases "getTransform ent'") (simp_all add: es')
qed

lemma transform_at_shapes:
  assumes "map shape (ents (world ed)) = map shape (ents (world ed0))"
    and "transform_at ed i = Some t"
  shows "\<exists>t0. transform_at ed0 i = Some t0 \<and> t_w t = t_w t0 \<and> t_h t = t_h t0"
proof -
  have len: "length (ents (world ed)) = length (ents (world ed0))"
    using assms(1) by (rule map_eq_imp_length_eq)
  from assms(2) have i: "i < length (ents (world ed))"
    and g: "getTransform (ents (world ed) ! i) = Some t"
    by (simp_all add: transform_at_def split: if_splits)
  have "map shape (ents (world ed)) ! i = map shape (ents (world ed0)) ! i"
    using assms(1) by simp
  then have "shape (ents (world ed) ! i) = shape (ents (world ed0) ! i)"
    using i len by simp
  then have "map_option (\<lambda>t. (t_w t, t_h t)) (getTransform (ents (world ed) ! i)) =
        map_option (\<lambda>t. (t_w t, t_h t)) (getTransform (ents (world ed0) ! i))"
    by (simp add: shape_def)
  from same_size [OF this] g i len show ?thesis
    by (simp add: transform_at_def)
qed

text \<open>
  One axis of the chase. The enemy's centre moves towards the player's by \<open>s\<close>
  times the component \<open>dx / d\<close> of the unit vector: it stops between the two
  centres, or passes the player's by less than \<open>s\<close>.
\<close>

lemma chase_axis:
  fixes xp wp xe we W m s d dx :: real
  assumes pl: "0 \<le> xp" "xp + wp \<le> W" and en: "0 \<le> xe" "xe + we \<le> W"
    and margin: "m \<le> (wp - we) / 2"
    and s: "0 \<le> s" "s \<le> m"
    and dx: "dx = (xp + wp / 2) - (xe + we / 2)"
    and d: "\<bar>dx\<bar> \<le> d" "0 < d"
  shows "0 \<le> xe + dx / d * s \<and> xe + dx / d * s + we \<le> W"
proof -
  define n where "n = dx / d"
  have margin2: "m * 2 \<le> wp - we" using margin by simp
  have n1: "\<bar>n\<bar> \<le> 1" using d by (simp add: n_def abs_divide divide_le_eq)
  have nd: "n * d = dx" using d(2) by (simp add: n_def)
  show ?thesis
  proof (cases "s \<le> d")
    case True
    show ?thesis
    proof (cases "0 \<le> n")
      case True
      have "0 \<le> n * s" using True s(1) by simp
      moreover have "n * s \<le> n * d" using True \<open>s \<le> d\<close> by (rule mult_left_mono [rotated])
      ultimately have "0 \<le> xe + n * s" "xe + n * s + we \<le> W"
        using pl en margin2 s dx nd by linarith+
      then show ?thesis by (simp add: n_def)
    next
      case False
      then have neg: "n \<le> 0" by simp
      have "n * s \<le> 0" using neg s(1) by (simp add: mult_nonpos_nonneg)
      moreover have "n * d \<le> n * s" using \<open>s \<le> d\<close> neg by (rule mult_left_mono_neg)
      ultimately have "0 \<le> xe + n * s" "xe + n * s + we \<le> W"
        using pl en margin2 s dx nd by linarith+
      then show ?thesis by (simp add: n_def)
    qed
  next
    case False
    then have over: "0 \<le> s - d" by simp
    have "\<bar>n * (s - d)\<bar> \<le> 1 * (s - d)"
      unfolding abs_mult using n1 over by (intro mult_mono) simp_all
    then have "- (s - d) \<le> n * s - n * d" "n * s - n * d \<le> s - d"
      by (simp_all add: abs_le_iff right_diff_distrib)
    then have "0 \<le> xe + n * s" "xe + n * s + we \<le> W"
      using pl en margin2 s dx nd d(2) by linarith+
    then show ?thesis by (simp add: n_def)
  qed
qed

lemma set_first_keeps:
  assumes "set_first_vx s ed = Inr ed' \<or> set_first_vy s ed = Inr ed'"
  shows "cfg ed' = cfg ed \<and> transform_at ed' i = transform_at ed i"
  using assms
  by (auto simp: set_first_vx_def set_first_vy_def all_ents_def transform_at_def
        getTransform_setVelocity nth_Cons
        split: list.splits option.splits nat.splits)

lemma key_down_keeps:
  assumes "key_down k ed = Inr ed'"
  shows "cfg ed' = cfg ed \<and> transform_at ed' i = transform_at ed i"
proof (cases "playing ed")
  case False
  with assms show ?thesis by (simp add: key_down_def)
next
  case True
  with assms have "ed' = ed \<or> (\<exists>s. set_first_vx s ed = Inr ed' \<or> set_first_vy s ed = Inr ed')"
    by (cases k) (auto simp: key_down_def)
  then show ?thesis using set_first_keeps [of _ ed ed' i] by blast
qed

lemma key_up_keeps:
  assumes "key_up k ed = Inr ed'"
  shows "cfg ed' = cfg ed \<and> transform_at ed' i = transform_at ed i"
proof (cases "playing ed")
  case False
  with assms show ?thesis by (simp add: key_up_def)
next
  case True
  with assms have "ed' = ed \<or> (\<exists>s. set_first_vx s ed = Inr ed' \<or> set_first_vy s ed = Inr ed')"
    by (cases k) (auto simp: key_up_def)
  then show ?thesis using set_first_keeps [of _ ed ed' i] by blast
qed

lemma press_play_pause_keeps:
  "cfg (press_play_pause ed) = cfg ed \<and>
   transform_at (press_play_pause ed) i = transform_at ed i"
  by (simp add: press_play_pause_def transform_at_def)


lemma chased_roles:
  assumes "find_roles (all_ents (world ed)) 0 Roles0 = Inr r"
    and "player r = Some p" and "enemy r = Some e"
  shows "chased ed = Some e"
  using assms by (simp add: chased_def)

text \<open>
  The invariant of a run that starts in \<open>ed0\<close>: the configuration and the shapes
  are those of \<open>ed0\<close> (so the roles are), and every Transform lies within the
  world, the chased one included if \<open>F\<close> is set.
\<close>

lemma inv_roles:
  assumes "map shape (ents (world ed)) = map shape (ents (world ed0))"
  shows "find_roles (all_ents (world ed)) 0 Roles0 = find_roles (all_ents (world ed0)) 0 Roles0"
  using find_roles_shape [OF assms] by (simp add: all_ents_def)

lemma inv_set:
  assumes inv: "cfg ed = cfg ed0 \<and> map shape (ents (world ed)) = map shape (ents (world ed0)) \<and>
                (\<forall>i t. transform_at ed i = Some t \<and> (F \<or> chased ed0 \<noteq> Some i) \<longrightarrow>
                   in_bounds (cfg ed0) t)"
    and old: "transform_at ed j = Some old"
    and size: "t_w t = t_w old" "t_h t = t_h old"
    and inb: "F \<or> chased ed0 \<noteq> Some j \<longrightarrow> in_bounds (cfg ed0) t"
  shows "cfg (set_transform_at j t ed) = cfg ed0 \<and>
         map shape (ents (world (set_transform_at j t ed))) = map shape (ents (world ed0)) \<and>
         (\<forall>i t'. transform_at (set_transform_at j t ed) i = Some t' \<and>
            (F \<or> chased ed0 \<noteq> Some i) \<longrightarrow> in_bounds (cfg ed0) t')"
    and "cfg ((set_transform_at j t ed)\<lparr>score := n\<rparr>) = cfg ed0 \<and>
         map shape (ents (world ((set_transform_at j t ed)\<lparr>score := n\<rparr>))) =
           map shape (ents (world ed0)) \<and>
         (\<forall>i t'. transform_at ((set_transform_at j t ed)\<lparr>score := n\<rparr>) i = Some t' \<and>
            (F \<or> chased ed0 \<noteq> Some i) \<longrightarrow> in_bounds (cfg ed0) t')"
proof -
  have sh: "map shape (ents (world (set_transform_at j t ed))) = map shape (ents (world ed0))"
    using shapes_set_transform_at [OF old size] inv by simp
  have b: "\<forall>i t'. transform_at (set_transform_at j t ed) i = Some t' \<and>
            (F \<or> chased ed0 \<noteq> Some i) \<longrightarrow> in_bounds (cfg ed0) t'"
    using inv old inb by (auto simp: transform_at_set_transform_at split: if_splits)
  show "cfg (set_transform_at j t ed) = cfg ed0 \<and>
         map shape (ents (world (set_transform_at j t ed))) = map shape (ents (world ed0)) \<and>
         (\<forall>i t'. transform_at (set_transform_at j t ed) i = Some t' \<and>
            (F \<or> chased ed0 \<noteq> Some i) \<longrightarrow> in_bounds (cfg ed0) t')"
    using sh b inv by (simp add: set_transform_at_fields)
  then show "cfg ((set_transform_at j t ed)\<lparr>score := n\<rparr>) = cfg ed0 \<and>
         map shape (ents (world ((set_transform_at j t ed)\<lparr>score := n\<rparr>))) =
           map shape (ents (world ed0)) \<and>
         (\<forall>i t'. transform_at ((set_transform_at j t ed)\<lparr>score := n\<rparr>) i = Some t' \<and>
            (F \<or> chased ed0 \<noteq> Some i) \<longrightarrow> in_bounds (cfg ed0) t')"
    by (simp add: transform_at_score_update)
qed

lemma inv_physics:
  assumes inv: "cfg ed = cfg ed0 \<and> map shape (ents (world ed)) = map shape (ents (world ed0)) \<and>
                (\<forall>i t. transform_at ed i = Some t \<and> (F \<or> chased ed0 \<noteq> Some i) \<longrightarrow>
                   in_bounds (cfg ed0) t)"
  shows "cfg (physics dt ed) = cfg ed0 \<and>
         map shape (ents (world (physics dt ed))) = map shape (ents (world ed0)) \<and>
         (\<forall>i t. transform_at (physics dt ed) i = Some t \<and> (F \<or> chased ed0 \<noteq> Some i) \<longrightarrow>
            in_bounds (cfg ed0) t)"
proof (intro conjI allI impI)
  show "cfg (physics dt ed) = cfg ed0" using inv by (simp add: physics_fields)
  show "map shape (ents (world (physics dt ed))) = map shape (ents (world ed0))"
    using inv by (simp add: shapes_physics)
  fix i t'
  assume a: "transform_at (physics dt ed) i = Some t' \<and> (F \<or> chased ed0 \<noteq> Some i)"
  then have i: "i < length (ents (world ed))"
    and g': "getTransform (integrate (cfg ed) dt (ents (world ed) ! i)) = Some t'"
    by (simp_all add: transform_at_physics split: if_splits)
  from integrate_keeps_size [OF g'] obtain t
    where t: "getTransform (ents (world ed) ! i) = Some t"
    by blast
  have "transform_at ed i = Some t" using i t by (simp add: transform_at_def)
  with inv a have "in_bounds (cfg ed) t" by auto
  from integrate_keeps [OF t this, of dt] g' inv show "in_bounds (cfg ed0) t'" by auto
qed

lemma inv_chase:
  assumes inv: "cfg ed = cfg ed0 \<and> map shape (ents (world ed)) = map shape (ents (world ed0)) \<and>
                (\<forall>i t. transform_at ed i = Some t \<and> (F \<or> chased ed0 \<noteq> Some i) \<longrightarrow>
                   in_bounds (cfg ed0) t)"
    and roles: "find_roles (all_ents (world ed0)) 0 Roles0 = Inr r"
    and ch: "chase dt r ed = Inr ed2"
    and cond: "F \<longrightarrow> margin_ok m ed0 \<and> 0 \<le> dt \<and> 100 * dt \<le> m"
  shows "cfg ed2 = cfg ed0 \<and> map shape (ents (world ed2)) = map shape (ents (world ed0)) \<and>
         (\<forall>i t. transform_at ed2 i = Some t \<and> (F \<or> chased ed0 \<noteq> Some i) \<longrightarrow>
            in_bounds (cfg ed0) t)"
  using chase_moves [OF ch]
proof (elim disjE exE conjE)
  assume "ed2 = ed" with inv show ?thesis by simp
next
  fix p e pt et dx dy
  assume p: "player r = Some p" and e: "enemy r = Some e"
    and pt: "transform_at ed p = Some pt" and et: "transform_at ed e = Some et"
    and dx: "dx = (t_x pt + t_w pt / 2) - (t_x et + t_w et / 2)"
    and dy: "dy = (t_y pt + t_h pt / 2) - (t_y et + t_h et / 2)"
    and far: "1 / 1000 < sqrt (dx * dx + dy * dy)"
    and ed2: "ed2 = set_transform_at e
                    (et\<lparr>t_x := t_x et + dx / sqrt (dx * dx + dy * dy) * 100 * dt,
                        t_y := t_y et + dy / sqrt (dx * dx + dy * dy) * 100 * dt\<rparr>) ed"
  let ?d = "sqrt (dx * dx + dy * dy)"
  have ce: "chased ed0 = Some e" by (rule chased_roles [OF roles p e])
  have "F \<or> chased ed0 \<noteq> Some e \<longrightarrow>
        in_bounds (cfg ed0) (et\<lparr>t_x := t_x et + dx / ?d * 100 * dt,
                        t_y := t_y et + dy / ?d * 100 * dt\<rparr>)"
  proof (cases F)
    case False
    with ce show ?thesis by simp
  next
    case True
    with cond have M: "margin_ok m ed0" and dt: "0 \<le> dt" "100 * dt \<le> m" by simp_all
    have pb: "in_bounds (cfg ed0) pt" and eb: "in_bounds (cfg ed0) et"
      using inv pt et True by blast+
    from transform_at_shapes [OF _ pt, of ed0] inv
    obtain pt0 where pt0: "transform_at ed0 p = Some pt0" "t_w pt = t_w pt0" "t_h pt = t_h pt0"
      by blast
    from transform_at_shapes [OF _ et, of ed0] inv
    obtain et0 where et0: "transform_at ed0 e = Some et0" "t_w et = t_w et0" "t_h et = t_h et0"
      by blast
    have mar: "m \<le> (t_w pt - t_w et) / 2" "m \<le> (t_h pt - t_h et) / 2"
      using M roles p e pt0 et0 by (simp_all add: margin_ok_def)
    have pos: "0 < ?d" using far by linarith
    have s: "0 \<le> 100 * dt" using dt(1) by simp
    have X: "0 \<le> t_x et + dx / ?d * (100 * dt) \<and>
             t_x et + dx / ?d * (100 * dt) + t_w et \<le> of_int (width (cfg ed0))"
      using pb eb
      by (intro chase_axis [OF _ _ _ _ mar(1) s dt(2) dx abs_le_sqrt_sum pos])
         (simp_all add: in_bounds_def)
    have Y: "0 \<le> t_y et + dy / ?d * (100 * dt) \<and>
             t_y et + dy / ?d * (100 * dt) + t_h et \<le> of_int (height (cfg ed0))"
      using pb eb
      by (intro chase_axis [OF _ _ _ _ mar(2) s dt(2) dy abs_le_sqrt_sum2 pos])
         (simp_all add: in_bounds_def)
    show ?thesis
      using X Y by (simp add: in_bounds_def mult.assoc)
  qed
  then show ?thesis
    unfolding ed2 by (intro inv_set(1) [OF inv et]) simp_all
qed

lemma inv_reset:
  assumes inv: "cfg ed = cfg ed0 \<and> map shape (ents (world ed)) = map shape (ents (world ed0)) \<and>
                (\<forall>i t. transform_at ed i = Some t \<and> (F \<or> chased ed0 \<noteq> Some i) \<longrightarrow>
                   in_bounds (cfg ed0) t)"
    and roles: "find_roles (all_ents (world ed0)) 0 Roles0 = Inr r"
    and rs: "reset_on_catch r ed = Inr ed3"
    and rec: "recentre_ok ed0"
  shows "cfg ed3 = cfg ed0 \<and> map shape (ents (world ed3)) = map shape (ents (world ed0)) \<and>
         (\<forall>i t. transform_at ed3 i = Some t \<and> (F \<or> chased ed0 \<noteq> Some i) \<longrightarrow>
            in_bounds (cfg ed0) t)"
  using reset_moves [OF rs]
proof (elim disjE exE conjE)
  assume "ed3 = ed" with inv show ?thesis by simp
next
  fix p e pt
  assume p: "player r = Some p" and e: "enemy r = Some e"
    and pt: "transform_at ed p = Some pt"
    and ed3: "ed3 = (set_transform_at p
                     (pt\<lparr>t_x := of_int (c_half (width (cfg ed)) - 32),
                         t_y := of_int (c_half (height (cfg ed)) - 32)\<rparr>) ed)\<lparr>score := 0\<rparr>"
  from transform_at_shapes [OF _ pt, of ed0] inv
  obtain pt0 where pt0: "transform_at ed0 p = Some pt0" "t_w pt = t_w pt0" "t_h pt = t_h pt0"
    by blast
  have "in_bounds (cfg ed0) (pt0\<lparr>t_x := of_int (c_half (width (cfg ed0)) - 32),
                         t_y := of_int (c_half (height (cfg ed0)) - 32)\<rparr>)"
    using rec roles p e pt0 by (simp add: recentre_ok_def)
  then have "in_bounds (cfg ed0) (pt\<lparr>t_x := of_int (c_half (width (cfg ed)) - 32),
                         t_y := of_int (c_half (height (cfg ed)) - 32)\<rparr>)"
    using pt0 inv by (simp add: in_bounds_def)
  then show ?thesis
    unfolding ed3 by (intro inv_set(2) [OF inv pt]) simp_all
qed

lemma inv_pickup:
  assumes inv: "cfg ed = cfg ed0 \<and> map shape (ents (world ed)) = map shape (ents (world ed0)) \<and>
                (\<forall>i t. transform_at ed i = Some t \<and> (F \<or> chased ed0 \<noteq> Some i) \<longrightarrow>
                   in_bounds (cfg ed0) t)"
    and pk: "pickup r1 r2 r ed = Inr ed4"
    and rand: "0 \<le> r1" "0 \<le> r2"
  shows "cfg ed4 = cfg ed0 \<and> map shape (ents (world ed4)) = map shape (ents (world ed0)) \<and>
         (\<forall>i t. transform_at ed4 i = Some t \<and> (F \<or> chased ed0 \<noteq> Some i) \<longrightarrow>
            in_bounds (cfg ed0) t)"
  using pickup_cases [OF pk]
proof (elim disjE exE conjE)
  assume "ed4 = ed" with inv show ?thesis by simp
next
  fix p pt t tt nx ny
  assume tt: "transform_at ed t = Some tt"
    and nx: "c_rem r1 (width (cfg ed) - to_int (t_w tt)) = Inr nx"
    and ny: "c_rem r2 (height (cfg ed) - to_int (t_h tt)) = Inr ny"
    and ed4: "ed4 = (set_transform_at t (tt\<lparr>t_x := of_int nx, t_y := of_int ny\<rparr>) ed)
                    \<lparr>score := score ed + 1\<rparr>"
  have c: "cfg ed = cfg ed0" using inv by simp
  have "in_bounds (cfg ed0) (tt\<lparr>t_x := of_int nx, t_y := of_int ny\<rparr>)"
    if "F \<or> chased ed0 \<noteq> Some t"
  proof -
    have "in_bounds (cfg ed0) tt" using inv tt that by blast
    then have sz: "t_w tt \<le> of_int (width (cfg ed0))" "t_h tt \<le> of_int (height (cfg ed0))"
      by (simp_all add: in_bounds_def)
    show ?thesis
      using c_rem_in_range [OF nx [unfolded c] rand(1) sz(1)]
        c_rem_in_range [OF ny [unfolded c] rand(2) sz(2)]
      by (simp add: in_bounds_def)
  qed
  then show ?thesis
    unfolding ed4 by (intro inv_set(2) [OF inv tt]) simp_all
qed

lemma inv_update:
  assumes inv: "cfg ed = cfg ed0 \<and> map shape (ents (world ed)) = map shape (ents (world ed0)) \<and>
                (\<forall>i t. transform_at ed i = Some t \<and> (F \<or> chased ed0 \<noteq> Some i) \<longrightarrow>
                   in_bounds (cfg ed0) t)"
    and step: "update dt r1 r2 ed = Inr ed'"
    and cond: "F \<longrightarrow> margin_ok m ed0 \<and> 0 \<le> dt \<and> 100 * dt \<le> m"
    and rand: "0 \<le> r1" "0 \<le> r2"
    and rec: "recentre_ok ed0"
  shows "cfg ed' = cfg ed0 \<and> map shape (ents (world ed')) = map shape (ents (world ed0)) \<and>
         (\<forall>i t. transform_at ed' i = Some t \<and> (F \<or> chased ed0 \<noteq> Some i) \<longrightarrow>
            in_bounds (cfg ed0) t)"
proof (cases "playing ed")
  case False
  with step inv show ?thesis by (simp add: update_def)
next
  case True
  with step obtain r ed2 ed3
    where roles1: "find_roles (all_ents (world (physics dt ed))) 0 Roles0 = Inr r"
      and ch: "chase dt r (physics dt ed) = Inr ed2"
      and rs: "reset_on_catch r ed2 = Inr ed3" and pk: "pickup r1 r2 r ed3 = Inr ed'"
    by (auto simp: update_def Let_def split: sum.splits)
  note i1 = inv_physics [OF inv, of dt]
  have roles: "find_roles (all_ents (world ed0)) 0 Roles0 = Inr r"
    using inv_roles [of "physics dt ed" ed0] i1 roles1 by simp
  note i2 = inv_chase [OF i1 roles ch cond]
  note i3 = inv_reset [OF i2 roles rs rec]
  show ?thesis by (rule inv_pickup [OF i3 pk rand])
qed

lemma shapes_set_first:
  assumes "set_first_vx s ed = Inr ed' \<or> set_first_vy s ed = Inr ed'"
  shows "map shape (ents (world ed')) = map shape (ents (world ed))"
  using assms
  by (auto simp: set_first_vx_def set_first_vy_def all_ents_def shape_setVelocity
        split: list.splits option.splits)

lemma shapes_keys:
  assumes "key_down k ed = Inr ed' \<or> key_up k ed = Inr ed'"
  shows "map shape (ents (world ed')) = map shape (ents (world ed))"
proof (cases "playing ed")
  case False
  with assms show ?thesis by (auto simp: key_down_def key_up_def)
next
  case True
  with assms have "ed' = ed \<or> (\<exists>s. set_first_vx s ed = Inr ed' \<or> set_first_vy s ed = Inr ed')"
    by (cases k) (auto simp: key_down_def key_up_def)
  then show ?thesis using shapes_set_first [of _ ed ed'] by blast
qed

lemma inv_keys:
  assumes inv: "cfg ed = cfg ed0 \<and> map shape (ents (world ed)) = map shape (ents (world ed0)) \<and>
                (\<forall>i t. transform_at ed i = Some t \<and> (F \<or> chased ed0 \<noteq> Some i) \<longrightarrow>
                   in_bounds (cfg ed0) t)"
    and keys: "key_down k ed = Inr ed' \<or> key_up k ed = Inr ed'"
  shows "cfg ed' = cfg ed0 \<and> map shape (ents (world ed')) = map shape (ents (world ed0)) \<and>
         (\<forall>i t. transform_at ed' i = Some t \<and> (F \<or> chased ed0 \<noteq> Some i) \<longrightarrow>
            in_bounds (cfg ed0) t)"
proof -
  have keep: "cfg ed' = cfg ed \<and> (\<forall>i. transform_at ed' i = transform_at ed i)"
    using keys key_down_keeps [of k ed ed'] key_up_keeps [of k ed ed'] by blast
  with inv shapes_keys [OF keys] show ?thesis by simp
qed

lemma inv_play_pause:
  assumes inv: "cfg ed = cfg ed0 \<and> map shape (ents (world ed)) = map shape (ents (world ed0)) \<and>
                (\<forall>i t. transform_at ed i = Some t \<and> (F \<or> chased ed0 \<noteq> Some i) \<longrightarrow>
                   in_bounds (cfg ed0) t)"
  shows "cfg (press_play_pause ed) = cfg ed0 \<and>
         map shape (ents (world (press_play_pause ed))) = map shape (ents (world ed0)) \<and>
         (\<forall>i t. transform_at (press_play_pause ed) i = Some t \<and> (F \<or> chased ed0 \<noteq> Some i) \<longrightarrow>
            in_bounds (cfg ed0) t)"
  using inv press_play_pause_keeps [of ed] by (simp add: press_play_pause_def)

lemma inv_run:
  assumes "run inputs ed = Inr ed'"
    and "list_all rand_ok inputs"
    and "F \<longrightarrow> margin_ok m ed0 \<and> list_all (frame_ok m) inputs"
    and "recentre_ok ed0"
    and "cfg ed = cfg ed0 \<and> map shape (ents (world ed)) = map shape (ents (world ed0)) \<and>
         (\<forall>i t. transform_at ed i = Some t \<and> (F \<or> chased ed0 \<noteq> Some i) \<longrightarrow>
            in_bounds (cfg ed0) t)"
  shows "cfg ed' = cfg ed0 \<and> map shape (ents (world ed')) = map shape (ents (world ed0)) \<and>
         (\<forall>i t. transform_at ed' i = Some t \<and> (F \<or> chased ed0 \<noteq> Some i) \<longrightarrow>
            in_bounds (cfg ed0) t)"
  using assms
proof (induction inputs arbitrary: ed)
  case Nil
  then show ?case by simp
next
  case (Cons x xs)
  from Cons.prems(1) obtain ed1 where x: "apply_input x ed = Inr ed1"
    and xs: "run xs ed1 = Inr ed'"
    by (auto split: sum.splits)
  have ok: "list_all rand_ok xs" and rx: "rand_ok x"
    using Cons.prems(2) by simp_all
  have cond: "F \<longrightarrow> margin_ok m ed0 \<and> list_all (frame_ok m) xs"
    and fx: "F \<longrightarrow> margin_ok m ed0 \<and> frame_ok m x"
    using Cons.prems(3) by auto
  have "cfg ed1 = cfg ed0 \<and> map shape (ents (world ed1)) = map shape (ents (world ed0)) \<and>
         (\<forall>i t. transform_at ed1 i = Some t \<and> (F \<or> chased ed0 \<noteq> Some i) \<longrightarrow>
            in_bounds (cfg ed0) t)"
  proof (cases x)
    case (Update dt r1 r2)
    with x rx fx show ?thesis
      using inv_update [OF Cons.prems(5), of dt r1 r2 ed1 m] Cons.prems(4) by simp
  next
    case (KeyDown k)
    with x show ?thesis using inv_keys [OF Cons.prems(5), of k ed1] by simp
  next
    case (KeyUp k)
    with x show ?thesis using inv_keys [OF Cons.prems(5), of k ed1] by simp
  next
    case PlayPause
    with x show ?thesis using inv_play_pause [OF Cons.prems(5)] by auto
  qed
  from Cons.IH [OF xs ok cond Cons.prems(4) this] show ?case .
qed

text \<open>
  C1 (amended). Take a session in which the player that the step finds, when it
  finds an enemy too, fits the world with its corner at
  \<open>(width/2 - 32, height/2 - 32)\<close>, where the reset puts it, and a run of the
  main loop from it that ends without error (any number of steps, of key events
  and of presses of play/pause, \<^verbatim>\<open>rand()\<close> not negative). For any frame times:
  if at the start every entity that has a Transform, the enemy that the step chases
  apart, has its rectangle within the world, then so it is at the end, for
  entities with and without a Velocity. The chased enemy is the exception because
  the chase runs after the clamp and is not clamped. If at the start every entity
  that has a Transform has its rectangle within the world, every frame time is not
  negative and at most \<open>m / 100\<close>, and the player exceeds the enemy by at least
  \<open>2 * m\<close> in width and in height (\<open>m = 8\<close>, frames of at most 80 ms, for the
  player of 64 by 64 and the enemy of 48 by 48 of the demo scene), then at the end
  every entity that has a Transform has its rectangle within the world, the chased
  enemy included.
\<close>

theorem world_stays_in_bounds:
  assumes "run inputs ed = Inr ed'"
    and "list_all rand_ok inputs"
    and "recentre_ok ed"
  shows "(others_in_bounds ed \<longrightarrow> others_in_bounds ed') \<and>
         (world_in_bounds ed \<and> list_all (frame_ok m) inputs \<and> margin_ok m ed \<longrightarrow>
            world_in_bounds ed')"
proof (intro conjI impI)
  assume "others_in_bounds ed"
  then have start: "cfg ed = cfg ed \<and> map shape (ents (world ed)) = map shape (ents (world ed)) \<and>
         (\<forall>i t. transform_at ed i = Some t \<and> (False \<or> chased ed \<noteq> Some i) \<longrightarrow>
            in_bounds (cfg ed) t)"
    unfolding others_in_bounds_iff by blast
  from inv_run [OF assms(1,2) _ assms(3) start, of m]
  have end1: "cfg ed' = cfg ed" "map shape (ents (world ed')) = map shape (ents (world ed))"
      "\<forall>i t. transform_at ed' i = Some t \<and> chased ed \<noteq> Some i \<longrightarrow> in_bounds (cfg ed) t"
    by simp_all
  have "chased ed' = chased ed"
    using inv_roles [OF end1(2)] by (simp add: chased_def)
  with end1 show "others_in_bounds ed'"
    unfolding others_in_bounds_iff by simp
next
  assume a: "world_in_bounds ed \<and> list_all (frame_ok m) inputs \<and> margin_ok m ed"
  then have start: "cfg ed = cfg ed \<and> map shape (ents (world ed)) = map shape (ents (world ed)) \<and>
         (\<forall>i t. transform_at ed i = Some t \<and> (True \<or> chased ed \<noteq> Some i) \<longrightarrow>
            in_bounds (cfg ed) t)"
    unfolding world_in_bounds_iff by blast
  from inv_run [OF assms(1,2) _ assms(3) start, of m] a
  show "world_in_bounds ed'"
    unfolding world_in_bounds_iff by simp
qed

lemma sqrt_1764: "sqrt 1764 = 42"
  by (rule real_sqrt_unique) simp_all

lemma sqrt_302500: "sqrt 302500 = 550"
  by (rule real_sqrt_unique) simp_all

lemma run_away_key:
  "key_down SDLK_a (press_play_pause (demo_editor False 0
       [demo_player None 608 328 0 0, demo_target None 1000 500, demo_enemy None 50 336])) =
     Inr (demo_editor True 0
       [demo_player None 608 328 (- 200) 0, demo_target None 1000 500, demo_enemy None 50 336])"
  by (simp add: key_down_def press_play_pause_def set_first_vx_def all_ents_def editor_defs comp_defs)

lemma run_away_update:
  "update 4 0 0 (demo_editor True 0
       [demo_player None 608 328 (- 200) 0, demo_target None 1000 500, demo_enemy None 50 336]) =
     Inr (demo_editor True 0
       [demo_player None 0 328 (- 200) 0, demo_target None 1000 500, demo_enemy None (- 350) 336])"
  by (simp add: step_defs editor_defs comp_defs sqrt_1764)

lemma short_frame_update:
  "update (2 / 25) 0 0 (demo_editor True 0
       [demo_player None 608 328 (- 200) 0, demo_target None 1000 500, demo_enemy None 50 336]) =
     Inr (demo_editor True 0
       [demo_player None 592 328 (- 200) 0, demo_target None 1000 500, demo_enemy None 58 336])"
  by (simp add: step_defs editor_defs comp_defs sqrt_302500)

lemma run_away_run:
  "run [PlayPause, KeyDown SDLK_a, Update 4 0 0] (demo_editor False 0
       [demo_player None 608 328 0 0, demo_target None 1000 500, demo_enemy None 50 336]) =
     Inr (demo_editor True 0
       [demo_player None 0 328 (- 200) 0, demo_target None 1000 500, demo_enemy None (- 350) 336])"
  by (simp add: run_away_key run_away_update)

lemma short_frame_run:
  "run [PlayPause, KeyDown SDLK_a, Update (2 / 25) 0 0] (demo_editor False 0
       [demo_player None 608 328 0 0, demo_target None 1000 500, demo_enemy None 50 336]) =
     Inr (demo_editor True 0
       [demo_player None 592 328 (- 200) 0, demo_target None 1000 500, demo_enemy None 58 336])"
  by (simp add: run_away_key short_frame_update)


theorem world_stays_in_bounds_witness:
  "run [PlayPause, KeyDown SDLK_a, Update 4 0 0] (demo_editor False 0
       [demo_player None 608 328 0 0, demo_target None 1000 500, demo_enemy None 50 336]) =
     Inr (demo_editor True 0
       [demo_player None 0 328 (- 200) 0, demo_target None 1000 500, demo_enemy None (- 350) 336]) \<and>
   others_in_bounds (demo_editor True 0
       [demo_player None 0 328 (- 200) 0, demo_target None 1000 500, demo_enemy None (- 350) 336]) \<and>
   run [PlayPause, KeyDown SDLK_a, Update (2 / 25) 0 0] (demo_editor False 0
       [demo_player None 608 328 0 0, demo_target None 1000 500, demo_enemy None 50 336]) =
     Inr (demo_editor True 0
       [demo_player None 592 328 (- 200) 0, demo_target None 1000 500, demo_enemy None 58 336]) \<and>
   world_in_bounds (demo_editor True 0
       [demo_player None 592 328 (- 200) 0, demo_target None 1000 500, demo_enemy None 58 336])"
  using world_stays_in_bounds
    [where inputs = "[PlayPause, KeyDown SDLK_a, Update 4 0 0]"
       and ed = "demo_editor False 0
         [demo_player None 608 328 0 0, demo_target None 1000 500, demo_enemy None 50 336]"
       and ed' = "demo_editor True 0
         [demo_player None 0 328 (- 200) 0, demo_target None 1000 500, demo_enemy None (- 350) 336]"
       and m = 8]
    world_stays_in_bounds
    [where inputs = "[PlayPause, KeyDown SDLK_a, Update (2 / 25) 0 0]"
       and ed = "demo_editor False 0
         [demo_player None 608 328 0 0, demo_target None 1000 500, demo_enemy None 50 336]"
       and ed' = "demo_editor True 0
         [demo_player None 592 328 (- 200) 0, demo_target None 1000 500, demo_enemy None 58 336]"
       and m = 8]
    run_away_run short_frame_run
  by (simp add: world_in_bounds_def others_in_bounds_def entity_in_bounds_def in_bounds_def
        recentre_ok_def margin_ok_def chased_def transform_at_def all_ents_def Roles0_def
        c_half_def editor_defs comp_defs)

lemma sqrt_16: "sqrt 16 = 4"
  by (rule real_sqrt_unique) simp_all

lemma overshoot_spawn:
  "spawnDemoScene 0 1 2 1000 500 616 340 editor_init =
     Inr (demo_editor False 0
       [demo_player None 608 328 0 0, demo_target None 1000 500, demo_enemy None 616 340])"
  by (simp add: spawn_defs editor_defs comp_defs)

lemma overshoot_run:
  "run [PlayPause, Update 4 0 0] (demo_editor False 0
       [demo_player None 608 328 0 0, demo_target None 1000 500, demo_enemy None 616 340]) =
     Inr (demo_editor True 0
       [demo_player None 608 328 0 0, demo_target None 1000 500, demo_enemy None 616 (- 60)])"
  by (simp add: press_play_pause_def step_defs editor_defs comp_defs sqrt_16)

lemma sqrt_quarter: "sqrt (1 / 4) = 1 / 2"
  by (rule real_sqrt_unique) (simp_all add: power2_eq_square)

lemma just_over_update:
  "update (9 / 100) 0 0 (demo_editor True 0
       [demo_player None 0 328 0 0, demo_target None 1000 500, demo_enemy None (17 / 2) 336]) =
     Inr (demo_editor True 0
       [demo_player None 608 328 0 0, demo_target None 1000 500, demo_enemy None (- 1 / 2) 336])"
  by (simp add: step_defs editor_defs comp_defs sqrt_quarter)

text \<open>
  C1 as stated fails: the demo scene as spawned, every rectangle within the world,
  the enemy's centre 4 below the player's; then play and one frame of four
  seconds. The chase moves the enemy 400 up, past the player, to \<open>y = -60\<close>; nothing
  clamps it. A frame of 90 ms is long enough: with the player at the left wall and
  the enemy's centre half a unit to the right of the player's, the chase moves the
  enemy 9 to the left, to \<open>x = -1/2\<close>.
\<close>

theorem chased_enemy_leaves_world:
  "spawnDemoScene 0 1 2 1000 500 616 340 editor_init =
     Inr (demo_editor False 0
       [demo_player None 608 328 0 0, demo_target None 1000 500, demo_enemy None 616 340]) \<and>
   world_in_bounds (demo_editor False 0
       [demo_player None 608 328 0 0, demo_target None 1000 500, demo_enemy None 616 340]) \<and>
   run [PlayPause, Update 4 0 0] (demo_editor False 0
       [demo_player None 608 328 0 0, demo_target None 1000 500, demo_enemy None 616 340]) =
     Inr (demo_editor True 0
       [demo_player None 608 328 0 0, demo_target None 1000 500, demo_enemy None 616 (- 60)]) \<and>
   \<not> world_in_bounds (demo_editor True 0
       [demo_player None 608 328 0 0, demo_target None 1000 500, demo_enemy None 616 (- 60)]) \<and>
   world_in_bounds (demo_editor True 0
       [demo_player None 0 328 0 0, demo_target None 1000 500, demo_enemy None (17 / 2) 336]) \<and>
   update (9 / 100) 0 0 (demo_editor True 0
       [demo_player None 0 328 0 0, demo_target None 1000 500, demo_enemy None (17 / 2) 336]) =
     Inr (demo_editor True 0
       [demo_player None 608 328 0 0, demo_target None 1000 500, demo_enemy None (- 1 / 2) 336]) \<and>
   \<not> world_in_bounds (demo_editor True 0
       [demo_player None 608 328 0 0, demo_target None 1000 500, demo_enemy None (- 1 / 2) 336])"
  by (intro conjI overshoot_spawn overshoot_run just_over_update)
     (simp_all add: world_in_bounds_def entity_in_bounds_def in_bounds_def editor_defs comp_defs)

section \<open>Keyboard\<close>

lemma key_events_set_first_entity:
  assumes "playing ed" and "all_ents (world ed) = ent # rest" and "getVelocity ent = Some v"
  shows "key_down SDLK_w ed =
           Inr (ed\<lparr>world := (world ed)\<lparr>ents := setVelocity ent (v\<lparr>v_vy := - 200\<rparr>) # rest\<rparr>\<rparr>)"
    and "key_down SDLK_s ed =
           Inr (ed\<lparr>world := (world ed)\<lparr>ents := setVelocity ent (v\<lparr>v_vy := 200\<rparr>) # rest\<rparr>\<rparr>)"
    and "key_down SDLK_a ed =
           Inr (ed\<lparr>world := (world ed)\<lparr>ents := setVelocity ent (v\<lparr>v_vx := - 200\<rparr>) # rest\<rparr>\<rparr>)"
    and "key_down SDLK_d ed =
           Inr (ed\<lparr>world := (world ed)\<lparr>ents := setVelocity ent (v\<lparr>v_vx := 200\<rparr>) # rest\<rparr>\<rparr>)"
    and "key_up SDLK_w ed =
           Inr (ed\<lparr>world := (world ed)\<lparr>ents := setVelocity ent (v\<lparr>v_vy := 0\<rparr>) # rest\<rparr>\<rparr>)"
    and "key_up SDLK_s ed =
           Inr (ed\<lparr>world := (world ed)\<lparr>ents := setVelocity ent (v\<lparr>v_vy := 0\<rparr>) # rest\<rparr>\<rparr>)"
    and "key_up SDLK_a ed =
           Inr (ed\<lparr>world := (world ed)\<lparr>ents := setVelocity ent (v\<lparr>v_vx := 0\<rparr>) # rest\<rparr>\<rparr>)"
    and "key_up SDLK_d ed =
           Inr (ed\<lparr>world := (world ed)\<lparr>ents := setVelocity ent (v\<lparr>v_vx := 0\<rparr>) # rest\<rparr>\<rparr>)"
  using assms by (simp_all add: key_down_def key_up_def set_first_vy_def set_first_vx_def)

lemma key_events_fail_without_velocity:
  assumes "playing ed" and "all_ents (world ed) = ent # rest" and "getVelocity ent = None"
    and "k \<in> {SDLK_w, SDLK_a, SDLK_s, SDLK_d}"
  shows "key_down k ed = Inl NullDeref" and "key_up k ed = Inl NullDeref"
  using assms by (auto simp: key_down_def key_up_def set_first_vy_def set_first_vx_def)

text \<open>
  C9. The key handlers write the Velocity of \<^verbatim>\<open>all()[0]\<close>, the first entity in the
  iteration order of the table, whichever entity that is. The demo scene as
  spawned into a table that lists the newest entity first: the first entity is the
  enemy, which has no Velocity, and pressing W while playing dereferences a null
  pointer; the player's velocity is not set.
\<close>

theorem key_down_on_newest_first_scene:
  "spawnDemoScene 0 0 0 1000 500 50 336 editor_init =
     Inr (demo_editor False 0
       [demo_enemy None 50 336, demo_target None 1000 500, demo_player None 608 328 0 0]) \<and>
   key_down SDLK_w (press_play_pause (demo_editor False 0
       [demo_enemy None 50 336, demo_target None 1000 500, demo_player None 608 328 0 0])) =
     Inl NullDeref \<and>
   key_down SDLK_w (press_play_pause (demo_editor False 0
       [demo_player None 608 328 0 0, demo_target None 1000 500, demo_enemy None 50 336])) =
     Inr (demo_editor True 0
       [demo_player None 608 328 0 (- 200), demo_target None 1000 500, demo_enemy None 50 336])"
  by (simp add: spawn_defs key_down_def press_play_pause_def set_first_vy_def all_ents_def
        editor_defs comp_defs)

end
